theory Spec2Isabelle
  imports Main "HOL-Library.Word"
begin

section \<open>JavaScript values, errors and responses\<close>

text \<open>
  The values that flow through \<^verbatim>\<open>fetchEnhanced\<close>: request bodies, query values and
  decoded response bodies. Strings are byte strings, binary payloads lists of byte
  values. A number value \<open>JNum w\<close> is the integer \<open>sint w\<close>, from \<open>- 2 ^ 53\<close> to
  \<open>2 ^ 53 - 1\<close>: the integers that a JavaScript number holds exactly and that
  \<^verbatim>\<open>String\<close> writes digit by digit. Other numbers (fractions, larger integers, which
  \<^verbatim>\<open>String\<close> rounds or writes with an exponent, \<^verbatim>\<open>NaN\<close>, the infinities) have no value
  in this type.
\<close>

datatype js_value =
    JUndefined
  | JNull
  | JBool bool
  | JNum "54 word"
  | JStr string
  | JArr "js_value list"
  | JObj "(string \<times> js_value) list"
  | JFormData "(string \<times> string) list"
  | JBlob "nat list"
  | JArrayBuffer "nat list"

text \<open>JavaScript truthiness, as tested by \<^verbatim>\<open>body && ...\<close>.\<close>

fun truthy :: "js_value \<Rightarrow> bool" where
  "truthy JUndefined = False"
| "truthy JNull = False"
| "truthy (JBool b) = b"
| "truthy (JNum n) = (n \<noteq> 0)"
| "truthy (JStr s) = (s \<noteq> [])"
| "truthy _ = True"

fun typeof :: "js_value \<Rightarrow> string" where
  "typeof JUndefined = ''undefined''"
| "typeof (JBool b) = ''boolean''"
| "typeof (JNum n) = ''number''"
| "typeof (JStr s) = ''string''"
| "typeof _ = ''object''"

fun instanceof_FormData :: "js_value \<Rightarrow> bool" where
  "instanceof_FormData (JFormData fd) = True"
| "instanceof_FormData _ = False"

text \<open>Decimal rendering of a number, as a template literal or \<^verbatim>\<open>String(n)\<close> does.\<close>

fun nat_to_string :: "nat \<Rightarrow> string" where
  "nat_to_string n =
     (if n < 10 then [char_of (48 + n)]
      else nat_to_string (n div 10) @ [char_of (48 + n mod 10)])"

declare nat_to_string.simps [simp del]

definition int_to_string :: "int \<Rightarrow> string" where
  "int_to_string i =
     (if i < 0 then CHR ''-'' # nat_to_string (nat (- i)) else nat_to_string (nat i))"

text \<open>
  \<^verbatim>\<open>String.prototype.includes\<close>: does \<open>t\<close> occur in \<open>s\<close> as a contiguous substring
  (case-sensitively). The name \<open>includes\<close> is reserved in Isabelle.
\<close>

fun str_includes :: "string \<Rightarrow> string \<Rightarrow> bool" where
  "str_includes [] t = (t = [])"
| "str_includes (c # s) t = (take (length t) (c # s) = t \<or> str_includes s t)"

text \<open>\<^verbatim>\<open>String.prototype.toUpperCase\<close> on ASCII letters; other bytes are kept.\<close>

definition char_toUpperCase :: "char \<Rightarrow> char" where
  "char_toUpperCase c =
     (let n = (of_char c :: nat) in if 97 \<le> n \<and> n \<le> 122 then char_of (n - 32) else c)"

definition toUpperCase :: "string \<Rightarrow> string" where
  "toUpperCase s = map char_toUpperCase s"

text \<open>
  A thrown error object. \<open>err_is_TypeError\<close> is \<^verbatim>\<open>error instanceof TypeError\<close>; an
  optional field is \<open>None\<close> when the property is undefined on the object.
\<close>

record js_error =
  err_name :: string
  err_message :: string
  err_is_TypeError :: bool
  err_status :: "int option"
  err_data :: "js_value option"
  err_url :: "string option"
  err_method :: "string option"
  err_attempt :: "nat option"

text \<open>What a call can throw: an error object, or \<^verbatim>\<open>null\<close> (the initial \<^verbatim>\<open>lastError\<close>).\<close>

datatype js_thrown = ThrowNull | Throw js_error

text \<open>
  The response object of the transport: its status, the value of
  \<^verbatim>\<open>headers.get('Content-Type')\<close> (\<open>None\<close> for \<^verbatim>\<open>null\<close>), and the outcome of each
  body-reading operation, \<open>Inl\<close> when the promise rejects.
\<close>

record js_response =
  resp_status :: int
  resp_content_type :: "string option"
  resp_json :: "js_error + js_value"
  resp_text :: "js_error + string"
  resp_blob :: "js_error + nat list"
  resp_arrayBuffer :: "js_error + nat list"

section \<open>Helper functions of \<^verbatim>\<open>src/js/utils/fetch/fetch.js\<close>\<close>

text \<open>\<^verbatim>\<open>parseResponse\<close>, lines 94 to 109.\<close>

definition parseResponse :: "js_response \<Rightarrow> string \<Rightarrow> js_error + js_value" where
  "parseResponse response responseType =
     (let type = (if responseType = ''auto''
                  then (case resp_content_type response of
                          None \<Rightarrow> ''''
                        | Some ct \<Rightarrow> if ct \<noteq> [] then ct else '''')
                  else responseType)
      in if str_includes type ''json'' \<or> responseType = ''json''
         then resp_json response
         else if str_includes type ''text'' \<or> responseType = ''text''
         then map_sum id JStr (resp_text response)
         else if str_includes type ''octet-stream'' \<or> responseType = ''blob''
         then map_sum id JBlob (resp_blob response)
         else map_sum id JArrayBuffer (resp_arrayBuffer response))"

text \<open>
  \<^verbatim>\<open>try { ... } catch { ... }\<close>: the handler runs exactly when the body throws.
\<close>

definition try_catch :: "'e + 'a \<Rightarrow> ('e \<Rightarrow> 'e + 'a) \<Rightarrow> 'e + 'a" where
  "try_catch body handler = (case body of Inl e \<Rightarrow> handler e | Inr v \<Rightarrow> Inr v)"

text \<open>\<^verbatim>\<open>parseErrorResponse\<close>, lines 111 to 121.\<close>

definition parseErrorResponse :: "js_response \<Rightarrow> js_error + js_value" where
  "parseErrorResponse response =
     try_catch (resp_json response)
       (\<lambda>_. try_catch (map_sum id JStr (resp_text response))
          (\<lambda>_. Inr JNull))"

text \<open>\<^verbatim>\<open>isFatalError\<close>, lines 123 to 127.\<close>

definition isFatalError :: "js_error \<Rightarrow> bool" where
  "isFatalError error =
     (err_name error = ''AbortError'' \<or>
      err_is_TypeError error \<or>
      (case err_status error of
         None \<Rightarrow> False
       | Some status \<Rightarrow> status \<noteq> 0 \<and> status \<ge> 400 \<and> status < 500))"

text \<open>The constructor of \<^verbatim>\<open>class FetchError extends Error\<close>, lines 133 to 140.\<close>

definition FetchError :: "string \<Rightarrow> int \<Rightarrow> js_value \<Rightarrow> js_error" where
  "FetchError message status data =
     \<lparr> err_name = ''FetchError'', err_message = message, err_is_TypeError = False,
       err_status = Some status, err_data = Some data,
       err_url = None, err_method = None, err_attempt = None \<rparr>"

text \<open>\<^verbatim>\<open>enhanceError\<close>, lines 142 to 147, with its context object.\<close>

record error_context =
  ctx_url :: string
  ctx_method :: string
  ctx_attempt :: nat

definition enhanceError :: "js_error \<Rightarrow> error_context \<Rightarrow> js_error" where
  "enhanceError error context =
     error\<lparr> err_url := Some (ctx_url context),
            err_method := Some (ctx_method context),
            err_attempt := Some (ctx_attempt context) \<rparr>"

section \<open>The host's URL facility\<close>

text \<open>
  Modelled from the spec: the classes \<^verbatim>\<open>URL\<close> and \<^verbatim>\<open>URLSearchParams\<close> belong to the
  host, not to the repository. The spec asks for a safe URL-building facility under which
  every query entry appears percent-encoded; what is written here is the
  \<^verbatim>\<open>application/x-www-form-urlencoded\<close> serializer that \<^verbatim>\<open>searchParams.append\<close> and
  \<^verbatim>\<open>toString\<close> follow: a space becomes \<open>+\<close>, the bytes \<open>A-Z a-z 0-9 * - . _\<close> are kept,
  every other byte becomes \<open>%\<close> and two upper-case hexadecimal digits; pairs are written
  \<open>name=value\<close> and joined by \<open>&\<close>.
\<close>

definition urlencoded_keep :: "char \<Rightarrow> bool" where
  "urlencoded_keep c =
     (let n = (of_char c :: nat)
      in (48 \<le> n \<and> n \<le> 57) \<or> (65 \<le> n \<and> n \<le> 90) \<or> (97 \<le> n \<and> n \<le> 122) \<or>
         n = 42 \<or> n = 45 \<or> n = 46 \<or> n = 95)"

definition hex_digit :: "nat \<Rightarrow> char" where
  "hex_digit n = (if n < 10 then char_of (48 + n) else char_of (55 + n))"

definition urlencode_char :: "char \<Rightarrow> string" where
  "urlencode_char c =
     (if c = CHR '' '' then ''+''
      else if urlencoded_keep c then [c]
      else [CHR ''%'', hex_digit ((of_char c :: nat) div 16), hex_digit ((of_char c :: nat) mod 16)])"

definition urlencode :: "string \<Rightarrow> string" where
  "urlencode s = concat (map urlencode_char s)"

fun join_amp :: "string list \<Rightarrow> string" where
  "join_amp [] = []"
| "join_amp [x] = x"
| "join_amp (x # y # zs) = x @ CHR ''&'' # join_amp (y # zs)"

definition urlencoded_pair :: "string \<times> string \<Rightarrow> string" where
  "urlencoded_pair p = urlencode (fst p) @ CHR ''='' # urlencode (snd p)"

definition urlencoded_serialize :: "(string \<times> string) list \<Rightarrow> string" where
  "urlencoded_serialize ps = join_amp (map urlencoded_pair ps)"

text \<open>
  Modelled from the spec: a parsed URL. \<open>url_base\<close> is everything before the query,
  \<open>url_query\<close> the query without its \<open>?\<close> (\<open>None\<close> when the URL has none), \<open>url_params\<close>
  the list behind \<^verbatim>\<open>searchParams\<close>, \<open>url_hash\<close> the fragment without its \<open>#\<close>.
\<close>

record js_URL =
  url_base :: string
  url_query :: "string option"
  url_params :: "(string \<times> string) list"
  url_hash :: "string option"

text \<open>
  Modelled from the spec: \<^verbatim>\<open>url.searchParams.append(name, value)\<close> of the host. The pair
  is added at the end of the list and the query of the URL becomes the serialization of
  the whole list (no query when that serialization is empty).
\<close>

definition searchParams_append :: "js_URL \<Rightarrow> string \<Rightarrow> string \<Rightarrow> js_URL" where
  "searchParams_append u name val =
     (let ps = url_params u @ [(name, val)];
          serialized = urlencoded_serialize ps
      in u\<lparr> url_params := ps,
            url_query := (if serialized = [] then None else Some serialized) \<rparr>)"

text \<open>
  Modelled from the spec: \<^verbatim>\<open>url.toString()\<close> of the host: the base, then \<open>?\<close> and the
  query when there is one, then \<open>#\<close> and the fragment when there is one.
\<close>

definition URL_toString :: "js_URL \<Rightarrow> string" where
  "URL_toString u =
     url_base u
     @ (case url_query u of None \<Rightarrow> [] | Some q \<Rightarrow> CHR ''?'' # q)
     @ (case url_hash u of None \<Rightarrow> [] | Some h \<Rightarrow> CHR ''#'' # h)"

text \<open>
  The conversion of an appended value to a string (\<^verbatim>\<open>String(value)\<close>), which
  \<^verbatim>\<open>searchParams.append\<close> applies to its arguments.
\<close>

fun join_comma :: "string list \<Rightarrow> string" where
  "join_comma [] = []"
| "join_comma [x] = x"
| "join_comma (x # y # zs) = x @ CHR '','' # join_comma (y # zs)"

fun ToString :: "js_value \<Rightarrow> string" where
  "ToString JUndefined = ''undefined''"
| "ToString JNull = ''null''"
| "ToString (JBool b) = (if b then ''true'' else ''false'')"
| "ToString (JNum n) = int_to_string (sint n)"
| "ToString (JStr s) = s"
| "ToString (JArr xs) =
     join_comma (map (\<lambda>x. if x = JUndefined \<or> x = JNull then [] else ToString x) xs)"
| "ToString (JObj kvs) = ''[object Object]''"
| "ToString (JFormData fd) = ''[object FormData]''"
| "ToString (JBlob bs) = ''[object Blob]''"
| "ToString (JArrayBuffer bs) = ''[object ArrayBuffer]''"

section \<open>Configuration, request options and the host\<close>

text \<open>
  The destructured options bag of \<^verbatim>\<open>fetchEnhanced\<close>, lines 3 to 15. \<open>cfg_query\<close> is the
  list \<^verbatim>\<open>Object.entries(query)\<close>; \<open>cfg_timeout = 0\<close> disables the timeout; \<open>cfg_signal\<close>
  is the caller's abort signal, named by a handle.
\<close>

record fetch_config =
  cfg_method :: string
  cfg_headers :: "string \<rightharpoonup> string"
  cfg_body :: js_value
  cfg_query :: "(string \<times> js_value) list"
  cfg_retries :: int
  cfg_retryDelay :: int
  cfg_timeout :: nat
  cfg_responseType :: string
  cfg_validateStatus :: "int \<Rightarrow> bool"
  cfg_debug :: bool
  cfg_signal :: "nat option"

definition default_config :: fetch_config where
  "default_config =
     \<lparr> cfg_method = ''GET'', cfg_headers = Map.empty, cfg_body = JNull, cfg_query = [],
       cfg_retries = 3, cfg_retryDelay = 1000, cfg_timeout = 8000,
       cfg_responseType = ''auto'',
       cfg_validateStatus = (\<lambda>status. status \<ge> 200 \<and> status < 300),
       cfg_debug = False, cfg_signal = None \<rparr>"

datatype js_signal = CallerSignal nat | AbortSignal_timeout nat

record request_options =
  opt_method :: string
  opt_headers :: "string \<rightharpoonup> string"
  opt_signal :: "js_signal option"
  opt_body :: "js_value option"

text \<open>
  What the function takes from its host: the constructor \<^verbatim>\<open>new URL(url)\<close>, which
  throws on a string that is no absolute URL; \<^verbatim>\<open>JSON.stringify\<close>; and the transport
  \<^verbatim>\<open>fetch\<close>. The transport's first argument is the number of the call (1 for the first
  request issued), so that it may answer every call differently.
\<close>

record js_host =
  host_URL :: "string \<Rightarrow> js_error + js_URL"
  host_stringify :: "js_value \<Rightarrow> string"
  host_fetch :: "nat \<Rightarrow> string \<Rightarrow> request_options \<Rightarrow> js_error + js_response"

text \<open>
  What a call does to the outside, in order: the requests it issues and the delays it
  sleeps. Console output under \<^verbatim>\<open>debug\<close> is not recorded.
\<close>

datatype io_event = Fetch string request_options | Wait int

fun is_Fetch :: "io_event \<Rightarrow> bool" where
  "is_Fetch (Fetch href options) = True"
| "is_Fetch (Wait ms) = False"

definition fetch_count :: "io_event list \<Rightarrow> nat" where
  "fetch_count tr = length (filter is_Fetch tr)"

text \<open>\<^verbatim>\<open>wait\<close>, lines 129 to 131: the call sleeps for \<open>ms\<close> milliseconds.\<close>

definition wait :: "int \<Rightarrow> io_event list \<Rightarrow> io_event list" where
  "wait ms tr = tr @ [Wait ms]"

section \<open>\<^verbatim>\<open>fetchEnhanced\<close> of \<^verbatim>\<open>src/js/utils/fetch/fetch.js\<close>\<close>

text \<open>
  Lines 19 to 23: every entry of the query whose value is not \<^verbatim>\<open>undefined\<close> is appended
  to the search parameters, in the order of \<^verbatim>\<open>Object.entries\<close>.
\<close>

definition append_query :: "js_URL \<Rightarrow> (string \<times> js_value) list \<Rightarrow> js_URL" where
  "append_query u query =
     fold (\<lambda>(key, val) finalUrl.
             if val \<noteq> JUndefined then searchParams_append finalUrl key (ToString val)
             else finalUrl)
          query u"

text \<open>Lines 26 to 30: the request configuration.\<close>

definition base_options :: "fetch_config \<Rightarrow> request_options" where
  "base_options cfg =
     \<lparr> opt_method = toUpperCase (cfg_method cfg),
       opt_headers = cfg_headers cfg,
       opt_signal = (case cfg_signal cfg of
                       Some s \<Rightarrow> Some (CallerSignal s)
                     | None \<Rightarrow> if cfg_timeout cfg \<noteq> 0
                               then Some (AbortSignal_timeout (cfg_timeout cfg)) else None),
       opt_body = None \<rparr>"

text \<open>Lines 33 to 40: body handling.\<close>

definition request_options_of :: "js_host \<Rightarrow> fetch_config \<Rightarrow> request_options" where
  "request_options_of host cfg =
     (let options = base_options cfg; body = cfg_body cfg
      in if truthy body \<and> opt_method options \<notin> set [''GET'', ''HEAD''] then
           if typeof body = ''object'' \<and> \<not> instanceof_FormData body then
             options\<lparr> opt_body := Some (JStr (host_stringify host body)),
                      opt_headers := (opt_headers options)(''Content-Type'' \<mapsto>
                         (case opt_headers options ''Content-Type'' of
                            None \<Rightarrow> ''application/json''
                          | Some v \<Rightarrow> if v \<noteq> [] then v else ''application/json'')) \<rparr>
           else options\<lparr> opt_body := Some body \<rparr>
         else options)"

text \<open>
  Lines 55 to 68, the body of the \<^verbatim>\<open>try\<close> block on the call numbered \<open>k\<close>: the request,
  the status validation and the parsing of the response. \<open>Inl\<close> is what the \<^verbatim>\<open>catch\<close>
  clause receives.
\<close>

definition attempt_once ::
  "js_host \<Rightarrow> fetch_config \<Rightarrow> string \<Rightarrow> request_options \<Rightarrow> nat \<Rightarrow> js_error + js_value" where
  "attempt_once host cfg href options k =
     (case host_fetch host k href options of
        Inl error \<Rightarrow> Inl error
      | Inr response \<Rightarrow>
          if \<not> cfg_validateStatus cfg (resp_status response) then
            (case parseErrorResponse response of
               Inl error \<Rightarrow> Inl error
             | Inr errorData \<Rightarrow>
                 Inl (FetchError
                        (''Request failed with status '' @ int_to_string (resp_status response))
                        (resp_status response) errorData))
          else parseResponse response (cfg_responseType cfg))"

text \<open>
  Lines 42 to 90, the retry loop, from the value \<open>attempt\<close> of the counter, the value
  \<open>lastError\<close> and the events \<open>tr\<close> so far. The request of an iteration is the call
  numbered one more than the requests issued before it.
\<close>

function retry_loop ::
  "js_host \<Rightarrow> fetch_config \<Rightarrow> string \<Rightarrow> request_options \<Rightarrow> nat \<Rightarrow> js_error option
     \<Rightarrow> io_event list \<Rightarrow> (js_thrown + js_value) \<times> io_event list" where
  "retry_loop host cfg href options attempt lastError tr =
     (if int attempt \<le> cfg_retries cfg then
        (let attempt' = attempt + 1;
             tr' = tr @ [Fetch href options]
         in case attempt_once host cfg href options (Suc (fetch_count tr)) of
              Inr v \<Rightarrow> (Inr v, tr')
            | Inl error \<Rightarrow>
                if int attempt' \<le> cfg_retries cfg \<and> \<not> isFatalError error then
                  retry_loop host cfg href options attempt' (Some error)
                    (wait (cfg_retryDelay cfg * 2 ^ (attempt' - 1)) tr')
                else
                  (Inl (Throw (enhanceError error
                     \<lparr> ctx_url = href, ctx_method = cfg_method cfg, ctx_attempt = attempt' \<rparr>)),
                   tr'))
      else (Inl (case lastError of None \<Rightarrow> ThrowNull | Some e \<Rightarrow> Throw e), tr))"
  by pat_completeness auto
termination
  by (relation "measure (\<lambda>(host, cfg, href, options, attempt, lastError, tr).
                  nat (cfg_retries cfg + 1 - int attempt))") auto

declare retry_loop.simps [simp del]

text \<open>
  The whole function: the outcome (\<open>Inl\<close> what is thrown to the caller, \<open>Inr\<close> the value
  the promise resolves to) and the events of the call.
\<close>

definition fetchEnhanced ::
  "js_host \<Rightarrow> string \<Rightarrow> fetch_config \<Rightarrow> (js_thrown + js_value) \<times> io_event list" where
  "fetchEnhanced host url cfg =
     (case host_URL host url of
        Inl error \<Rightarrow> (Inl (Throw error), [])
      | Inr u \<Rightarrow>
          (let finalUrl = append_query u (cfg_query cfg);
               options = request_options_of host cfg
           in retry_loop host cfg (URL_toString finalUrl) options 0 None []))"

section \<open>The variant of \<^verbatim>\<open>src/unnamed/part_000\<close>\<close>

text \<open>
  The documented implementation, lines 60 to 277 of \<^verbatim>\<open>src/unnamed/part_000\<close>. Its
  \<^verbatim>\<open>isFatalError\<close>, \<^verbatim>\<open>wait\<close>, \<^verbatim>\<open>FetchError\<close> and \<^verbatim>\<open>enhanceError\<close> are those of
  \<^verbatim>\<open>fetch.js\<close> word for word; the functions that differ are written again, with the
  suffix \<open>_doc\<close>.
\<close>

text \<open>\<^verbatim>\<open>parseResponse\<close>, lines 195 to 213.\<close>

definition parseResponse_doc :: "js_response \<Rightarrow> string \<Rightarrow> js_error + js_value" where
  "parseResponse_doc response responseType =
     (let contentType = (case resp_content_type response of
                           None \<Rightarrow> ''''
                         | Some ct \<Rightarrow> if ct \<noteq> [] then ct else '''');
          type = (if responseType = ''auto'' then contentType else responseType)
      in if str_includes type ''json'' \<or> responseType = ''json''
         then resp_json response
         else if str_includes type ''text'' \<or> responseType = ''text''
         then map_sum id JStr (resp_text response)
         else if str_includes type ''octet-stream'' \<or> responseType = ''blob''
         then map_sum id JBlob (resp_blob response)
         else map_sum id JArrayBuffer (resp_arrayBuffer response))"

text \<open>\<^verbatim>\<open>parseErrorResponse\<close>, lines 219 to 229.\<close>

definition parseErrorResponse_doc :: "js_response \<Rightarrow> js_error + js_value" where
  "parseErrorResponse_doc response =
     try_catch (resp_json response)
       (\<lambda>_. try_catch (map_sum id JStr (resp_text response))
          (\<lambda>_. Inr (JStr (''Failed to parse error response (status: ''
                           @ int_to_string (resp_status response) @ '')''))))"

text \<open>Lines 101 to 113: body handling.\<close>

definition request_options_of_doc :: "js_host \<Rightarrow> fetch_config \<Rightarrow> request_options" where
  "request_options_of_doc host cfg =
     (let options = base_options cfg; body = cfg_body cfg
      in if truthy body \<and> opt_method options \<notin> set [''GET'', ''HEAD''] then
           if typeof body = ''object'' \<and> \<not> instanceof_FormData body then
             (let options1 = options\<lparr> opt_body := Some (JStr (host_stringify host body)) \<rparr>
              in if (case opt_headers options1 ''Content-Type'' of
                       None \<Rightarrow> True | Some v \<Rightarrow> v = [])
                 then options1\<lparr> opt_headers :=
                        (opt_headers options1)(''Content-Type'' \<mapsto> ''application/json'') \<rparr>
                 else options1)
           else options\<lparr> opt_body := Some body \<rparr>
         else options)"

text \<open>Lines 134 to 152, the body of the \<^verbatim>\<open>try\<close> block.\<close>

definition attempt_once_doc ::
  "js_host \<Rightarrow> fetch_config \<Rightarrow> string \<Rightarrow> request_options \<Rightarrow> nat \<Rightarrow> js_error + js_value" where
  "attempt_once_doc host cfg href options k =
     (case host_fetch host k href options of
        Inl error \<Rightarrow> Inl error
      | Inr response \<Rightarrow>
          if \<not> cfg_validateStatus cfg (resp_status response) then
            (case parseErrorResponse_doc response of
               Inl error \<Rightarrow> Inl error
             | Inr errorData \<Rightarrow>
                 Inl (FetchError
                        (''Request failed with status '' @ int_to_string (resp_status response))
                        (resp_status response) errorData))
          else parseResponse_doc response (cfg_responseType cfg))"

text \<open>Lines 118 to 183, the retry loop.\<close>

function retry_loop_doc ::
  "js_host \<Rightarrow> fetch_config \<Rightarrow> string \<Rightarrow> request_options \<Rightarrow> nat \<Rightarrow> js_error option
     \<Rightarrow> io_event list \<Rightarrow> (js_thrown + js_value) \<times> io_event list" where
  "retry_loop_doc host cfg href options attempt lastError tr =
     (if int attempt \<le> cfg_retries cfg then
        (let attempt' = attempt + 1;
             tr' = tr @ [Fetch href options]
         in case attempt_once_doc host cfg href options (Suc (fetch_count tr)) of
              Inr v \<Rightarrow> (Inr v, tr')
            | Inl error \<Rightarrow>
                if int attempt' \<le> cfg_retries cfg \<and> \<not> isFatalError error then
                  (let delay = cfg_retryDelay cfg * 2 ^ (attempt' - 1)
                   in retry_loop_doc host cfg href options attempt' (Some error)
                        (wait delay tr'))
                else
                  (Inl (Throw (enhanceError error
                     \<lparr> ctx_url = href, ctx_method = opt_method options,
                       ctx_attempt = attempt' \<rparr>)),
                   tr'))
      else (Inl (case lastError of None \<Rightarrow> ThrowNull | Some e \<Rightarrow> Throw e), tr))"
  by pat_completeness auto
termination
  by (relation "measure (\<lambda>(host, cfg, href, options, attempt, lastError, tr).
                  nat (cfg_retries cfg + 1 - int attempt))") auto

declare retry_loop_doc.simps [simp del]

definition fetchEnhanced_doc ::
  "js_host \<Rightarrow> string \<Rightarrow> fetch_config \<Rightarrow> (js_thrown + js_value) \<times> io_event list" where
  "fetchEnhanced_doc host url cfg =
     (case host_URL host url of
        Inl error \<Rightarrow> (Inl (Throw error), [])
      | Inr u \<Rightarrow>
          (let finalUrl = append_query u (cfg_query cfg);
               options = request_options_of_doc host cfg
           in retry_loop_doc host cfg (URL_toString finalUrl) options 0 None []))"

section \<open>Notions used in the statements\<close>

text \<open>The string \<^verbatim>\<open>finalUrl.toString()\<close> of a call whose URL parsed to \<open>u\<close>.\<close>

definition final_href :: "js_URL \<Rightarrow> fetch_config \<Rightarrow> string" where
  "final_href u cfg = URL_toString (append_query u (cfg_query cfg))"

text \<open>
  The search parameters that a query contributes: its entries whose value is not
  \<^verbatim>\<open>undefined\<close>, in order, each value converted to a string.
\<close>

definition kept_entries :: "(string \<times> js_value) list \<Rightarrow> (string \<times> string) list" where
  "kept_entries query =
     map (\<lambda>(key, val). (key, ToString val)) (filter (\<lambda>(key, val). val \<noteq> JUndefined) query)"

text \<open>
  Modelled from the spec: the parser of the host's \<^verbatim>\<open>URLSearchParams\<close>, which is not
  repository code. It reads a query string back: the string is split at \<open>&\<close>, empty pieces
  are dropped, each piece is split at its first \<open>=\<close>, and in both halves \<open>+\<close> becomes a
  space and \<open>%\<close> with two hexadecimal digits becomes the byte they denote.
\<close>

definition unhex :: "char \<Rightarrow> nat option" where
  "unhex c =
     (let n = (of_char c :: nat)
      in if 48 \<le> n \<and> n \<le> 57 then Some (n - 48)
         else if 65 \<le> n \<and> n \<le> 70 then Some (n - 55)
         else if 97 \<le> n \<and> n \<le> 102 then Some (n - 87)
         else None)"

fun percent_decode :: "string \<Rightarrow> string" where
  "percent_decode [] = []"
| "percent_decode (c # s) =
     (if c = CHR ''%'' then
        (case s of
           a # b # s' \<Rightarrow>
             (case (unhex a, unhex b) of
                (Some x, Some y) \<Rightarrow> char_of (16 * x + y) # percent_decode s'
              | _ \<Rightarrow> c # percent_decode s)
         | _ \<Rightarrow> c # percent_decode s)
      else c # percent_decode s)"

definition plus_to_space :: "string \<Rightarrow> string" where
  "plus_to_space s = map (\<lambda>c. if c = CHR ''+'' then CHR '' '' else c) s"

fun split_on :: "char \<Rightarrow> string \<Rightarrow> string list" where
  "split_on sep [] = [[]]"
| "split_on sep (c # s) =
     (if c = sep then [] # split_on sep s
      else (case split_on sep s of
              [] \<Rightarrow> [[c]]
            | piece # pieces \<Rightarrow> (c # piece) # pieces))"

definition urlencoded_parse_pair :: "string \<Rightarrow> string \<times> string" where
  "urlencoded_parse_pair piece =
     (let name = takeWhile (\<lambda>c. c \<noteq> CHR ''='') piece;
          val = drop 1 (dropWhile (\<lambda>c. c \<noteq> CHR ''='') piece)
      in (percent_decode (plus_to_space name), percent_decode (plus_to_space val)))"

definition urlencoded_parse :: "string \<Rightarrow> (string \<times> string) list" where
  "urlencoded_parse input =
     map urlencoded_parse_pair (filter (\<lambda>piece. piece \<noteq> []) (split_on CHR ''&'' input))"

text \<open>
  The events of \<open>n\<close> attempts that each failed and were retried: the request of attempt
  \<open>k\<close>, then a sleep of \<open>retryDelay * 2 ^ (k - 1)\<close> milliseconds.
\<close>

fun backoff_trace :: "string \<Rightarrow> request_options \<Rightarrow> int \<Rightarrow> nat \<Rightarrow> io_event list" where
  "backoff_trace href options retryDelay 0 = []"
| "backoff_trace href options retryDelay (Suc n) =
     backoff_trace href options retryDelay n
     @ [Fetch href options, Wait (retryDelay * 2 ^ n)]"

text \<open>
  The payload of the documented variant when neither decoding of a rejected response
  succeeds, for a response of status \<open>s\<close>.
\<close>

definition parse_failure_text :: "int \<Rightarrow> string" where
  "parse_failure_text s =
     ''Failed to parse error response (status: '' @ int_to_string s @ '')''"

text \<open>
  Two surfaced errors agree when they have the same name, message, class, status, URL and
  attempt number, and the same payload or else \<^verbatim>\<open>null\<close> on the left and the text above
  on the right. The field \<^verbatim>\<open>method\<close> is not compared.
\<close>

definition errors_agree :: "js_error \<Rightarrow> js_error \<Rightarrow> bool" where
  "errors_agree e d =
     (err_name e = err_name d \<and> err_message e = err_message d \<and>
      err_is_TypeError e = err_is_TypeError d \<and> err_status e = err_status d \<and>
      err_url e = err_url d \<and> err_attempt e = err_attempt d \<and>
      (err_data e = err_data d \<or>
       (err_data e = Some JNull \<and>
        (case err_status d of
           None \<Rightarrow> False
         | Some s \<Rightarrow> err_data d = Some (JStr (parse_failure_text s))))))"

fun outcomes_agree :: "js_thrown + js_value \<Rightarrow> js_thrown + js_value \<Rightarrow> bool" where
  "outcomes_agree (Inr v) (Inr w) = (v = w)"
| "outcomes_agree (Inl ThrowNull) (Inl ThrowNull) = True"
| "outcomes_agree (Inl (Throw e)) (Inl (Throw d)) = errors_agree e d"
| "outcomes_agree _ _ = False"

text \<open>The same comparison for what one attempt yields and for the two values of
  \<^verbatim>\<open>lastError\<close>.\<close>

fun attempts_agree :: "js_error + js_value \<Rightarrow> js_error + js_value \<Rightarrow> bool" where
  "attempts_agree (Inr v) (Inr w) = (v = w)"
| "attempts_agree (Inl e) (Inl d) = errors_agree e d"
| "attempts_agree _ _ = False"

fun last_errors_agree :: "js_error option \<Rightarrow> js_error option \<Rightarrow> bool" where
  "last_errors_agree None None = True"
| "last_errors_agree (Some e) (Some d) = errors_agree e d"
| "last_errors_agree _ _ = False"

section \<open>Concrete hosts, errors and responses\<close>

text \<open>An error object with a name and a message and no further property.\<close>

definition plain_error :: "string \<Rightarrow> string \<Rightarrow> js_error" where
  "plain_error name message =
     \<lparr> err_name = name, err_message = message, err_is_TypeError = False,
       err_status = None, err_data = None,
       err_url = None, err_method = None, err_attempt = None \<rparr>"

text \<open>A URL without query and fragment.\<close>

definition plain_URL :: "string \<Rightarrow> js_URL" where
  "plain_URL s = \<lparr> url_base = s, url_query = None, url_params = [], url_hash = None \<rparr>"

text \<open>A response of status \<open>s\<close> whose body no operation can read.\<close>

definition unreadable_response :: "int \<Rightarrow> js_response" where
  "unreadable_response s =
     \<lparr> resp_status = s, resp_content_type = None,
       resp_json = Inl (plain_error ''SyntaxError'' ''Unexpected end of JSON input''),
       resp_text = Inl (plain_error ''Error'' ''body stream is not readable''),
       resp_blob = Inl (plain_error ''Error'' ''body stream is not readable''),
       resp_arrayBuffer = Inl (plain_error ''Error'' ''body stream is not readable'') \<rparr>"

text \<open>A response of status \<open>s\<close> with a content type and a text body that is no JSON.\<close>

definition text_response :: "int \<Rightarrow> string \<Rightarrow> string \<Rightarrow> js_response" where
  "text_response s ct body =
     \<lparr> resp_status = s, resp_content_type = Some ct,
       resp_json = Inl (plain_error ''SyntaxError'' ''Unexpected token''),
       resp_text = Inr body,
       resp_blob = Inr (map of_char body),
       resp_arrayBuffer = Inr (map of_char body) \<rparr>"

text \<open>
  A host whose URL parser accepts every string as a URL without query, whose
  \<^verbatim>\<open>JSON.stringify\<close> is \<open>stringify\<close>, and whose transport answers the call numbered \<open>k\<close>
  with \<open>answers k\<close>.
\<close>

definition stub_host :: "(js_value \<Rightarrow> string) \<Rightarrow> (nat \<Rightarrow> js_error + js_response) \<Rightarrow> js_host" where
  "stub_host stringify answers =
     \<lparr> host_URL = (\<lambda>s. Inr (plain_URL s)),
       host_stringify = stringify,
       host_fetch = (\<lambda>k href options. answers k) \<rparr>"

text \<open>A host whose transport fails every call with a plain error.\<close>

definition always_failing_host :: js_host where
  "always_failing_host =
     stub_host (\<lambda>v. ''{}'') (\<lambda>k. Inl (plain_error ''Error'' ''connection reset''))"

text \<open>A host whose transport answers every call with a response of status \<open>s\<close>.\<close>

definition status_host :: "int \<Rightarrow> js_host" where
  "status_host s = stub_host (\<lambda>v. ''{}'') (\<lambda>k. Inr (text_response s ''text/plain'' ''failure''))"

text \<open>
  A host whose transport is aborted on the call numbered \<open>n\<close> and fails every other call
  with a plain error.
\<close>

definition abort_at_host :: "nat \<Rightarrow> js_host" where
  "abort_at_host n =
     stub_host (\<lambda>v. ''{}'')
       (\<lambda>k. if k = n then Inl (plain_error ''AbortError'' ''The operation was aborted'')
            else Inl (plain_error ''Error'' ''connection reset''))"



definition post_config :: fetch_config where
  "post_config =
     default_config\<lparr> cfg_method := ''post'', cfg_body := JArr [JNum 1, JNum 2],
                     cfg_retries := 0 \<rparr>"

text \<open>A host whose transport answers every call with an unreadable response of status \<open>s\<close>.\<close>

definition unreadable_host :: "int \<Rightarrow> js_host" where
  "unreadable_host s = stub_host (\<lambda>v. ''{}'') (\<lambda>k. Inr (unreadable_response s))"

text \<open>The default configuration without retries.\<close>

definition no_retry_config :: fetch_config where
  "no_retry_config = default_config\<lparr> cfg_retries := 0 \<rparr>"

text \<open>A query with a space, reserved characters, an \<^verbatim>\<open>undefined\<close>, a \<^verbatim>\<open>null\<close> and a number.\<close>

definition query_config :: fetch_config where
  "query_config =
     default_config\<lparr> cfg_query :=
       [(''a b'', JStr ''x&y=z''), (''u'', JUndefined), (''n'', JNull), (''k'', JNum (- 15))] \<rparr>"

text \<open>
  A host whose transport never answers in time: when the request carries the signal of
  \<^verbatim>\<open>AbortSignal.timeout\<close>, the signal fires and the transport rejects with the
  \<^verbatim>\<open>TimeoutError\<close> that such a signal aborts with.
\<close>

definition timing_out_host :: js_host where
  "timing_out_host =
     \<lparr> host_URL = (\<lambda>s. Inr (plain_URL s)),
       host_stringify = (\<lambda>v. ''{}''),
       host_fetch = (\<lambda>k href options.
          case opt_signal options of
            Some (AbortSignal_timeout ms) \<Rightarrow>
              Inl (plain_error ''TimeoutError'' ''The operation was aborted due to timeout'')
          | _ \<Rightarrow> Inr (text_response 200 ''text/plain'' ''ok'')) \<rparr>"

text \<open>
  A response of status \<open>s\<close> whose request is aborted while the body is read: every
  reading operation rejects with an \<^verbatim>\<open>AbortError\<close>.
\<close>

definition aborted_body_response :: "int \<Rightarrow> js_response" where
  "aborted_body_response s =
     \<lparr> resp_status = s, resp_content_type = Some ''application/json'',
       resp_json = Inl (plain_error ''AbortError'' ''The operation was aborted''),
       resp_text = Inl (plain_error ''AbortError'' ''The operation was aborted''),
       resp_blob = Inl (plain_error ''AbortError'' ''The operation was aborted''),
       resp_arrayBuffer = Inl (plain_error ''AbortError'' ''The operation was aborted'') \<rparr>"

text \<open>
  A host whose first call is answered with status \<open>s\<close> and aborted while the body is read;
  every later call is rejected at once with an \<^verbatim>\<open>AbortError\<close>, the signal being aborted.
\<close>

definition abort_while_reading_host :: "int \<Rightarrow> js_host" where
  "abort_while_reading_host s =
     stub_host (\<lambda>v. ''{}'')
       (\<lambda>k. if k = 1 then Inr (aborted_body_response s)
            else Inl (plain_error ''AbortError'' ''The operation was aborted''))"

section \<open>Substrings\<close>

lemma take_length_eq_iff: "take (length t) s = t \<longleftrightarrow> (\<exists>q. s = t @ q)"
proof
  assume "take (length t) s = t"
  then have "s = t @ drop (length t) s" by (metis append_take_drop_id)
  then show "\<exists>q. s = t @ q" ..
next
  assume "\<exists>q. s = t @ q"
  then show "take (length t) s = t" by auto
qed

lemma str_includes_iff: "str_includes s t \<longleftrightarrow> (\<exists>p q. s = p @ t @ q)"
proof (induction s)
  case Nil
  show ?case by auto
next
  case (Cons c s)
  have "(\<exists>p q. c # s = p @ t @ q) \<longleftrightarrow> (\<exists>q. c # s = t @ q) \<or> (\<exists>p q. s = p @ t @ q)"
  proof
    assume "\<exists>p q. c # s = p @ t @ q"
    then obtain p q where pq: "c # s = p @ t @ q" by blast
    show "(\<exists>q. c # s = t @ q) \<or> (\<exists>p q. s = p @ t @ q)"
    proof (cases p)
      case Nil
      with pq show ?thesis by auto
    next
      case (Cons a p')
      with pq have "s = p' @ t @ q" by simp
      then show ?thesis by blast
    qed
  next
    assume "(\<exists>q. c # s = t @ q) \<or> (\<exists>p q. s = p @ t @ q)"
    then show "\<exists>p q. c # s = p @ t @ q"
    proof
      assume "\<exists>q. c # s = t @ q"
      then obtain q where "c # s = [] @ t @ q" by auto
      then show ?thesis by blast
    next
      assume "\<exists>p q. s = p @ t @ q"
      then obtain p q where "c # s = (c # p) @ t @ q" by auto
      then show ?thesis by blast
    qed
  qed
  with Cons.IH show ?case
    by (simp only: str_includes.simps take_length_eq_iff)
qed

section \<open>The retry loop, step by step\<close>

lemma fetch_count_append: "fetch_count (xs @ ys) = fetch_count xs + fetch_count ys"
  by (simp add: fetch_count_def)

lemma fetch_count_backoff_trace: "fetch_count (backoff_trace href options d n) = n"
  by (induction n) (simp_all add: fetch_count_def)

lemma parseErrorResponse_Inr: "\<exists>p. parseErrorResponse r = Inr p"
  by (cases "resp_json r"; cases "resp_text r")
     (simp_all add: parseErrorResponse_def try_catch_def)

lemma retry_loop_success:
  assumes "int a \<le> cfg_retries cfg"
    and "attempt_once host cfg href options (Suc (fetch_count tr)) = Inr v"
  shows "retry_loop host cfg href options a le tr = (Inr v, tr @ [Fetch href options])"
  using assms by (subst retry_loop.simps) simp

lemma retry_loop_retry:
  assumes "int a < cfg_retries cfg"
    and "attempt_once host cfg href options (Suc (fetch_count tr)) = Inl e"
    and "\<not> isFatalError e"
  shows "retry_loop host cfg href options a le tr =
         retry_loop host cfg href options (Suc a) (Some e)
           (tr @ [Fetch href options, Wait (cfg_retryDelay cfg * 2 ^ a)])"
  using assms by (subst retry_loop.simps) (simp add: wait_def)

lemma retry_loop_stop:
  assumes "int a \<le> cfg_retries cfg"
    and "attempt_once host cfg href options (Suc (fetch_count tr)) = Inl e"
    and "isFatalError e \<or> int a = cfg_retries cfg"
  shows "retry_loop host cfg href options a le tr =
         (Inl (Throw (enhanceError e
            \<lparr> ctx_url = href, ctx_method = cfg_method cfg, ctx_attempt = Suc a \<rparr>)),
          tr @ [Fetch href options])"
  using assms by (subst retry_loop.simps) auto

lemma retry_loop_prefix:
  assumes "\<forall>k. 1 \<le> k \<and> k \<le> n \<longrightarrow>
             (\<exists>e. attempt_once host cfg href options k = Inl e \<and> \<not> isFatalError e)"
    and "int n \<le> cfg_retries cfg"
  shows "\<exists>le. retry_loop host cfg href options 0 None [] =
              retry_loop host cfg href options n le
                (backoff_trace href options (cfg_retryDelay cfg) n)"
  using assms
proof (induction n)
  case 0
  show ?case by auto
next
  case (Suc n)
  from Suc.prems have fails: "\<forall>k. 1 \<le> k \<and> k \<le> n \<longrightarrow>
      (\<exists>e. attempt_once host cfg href options k = Inl e \<and> \<not> isFatalError e)"
    and le: "int n < cfg_retries cfg" by auto
  from Suc.IH [OF fails] le obtain le0 where
    eq: "retry_loop host cfg href options 0 None [] =
         retry_loop host cfg href options n le0
           (backoff_trace href options (cfg_retryDelay cfg) n)" by auto
  from Suc.prems obtain e where
    e: "attempt_once host cfg href options (Suc n) = Inl e" "\<not> isFatalError e" by auto
  have "retry_loop host cfg href options n le0
          (backoff_trace href options (cfg_retryDelay cfg) n) =
        retry_loop host cfg href options (Suc n) (Some e)
          (backoff_trace href options (cfg_retryDelay cfg) (Suc n))"
    using retry_loop_retry [OF le, of host href options
          "backoff_trace href options (cfg_retryDelay cfg) n" e le0] e
    by (simp add: fetch_count_backoff_trace)
  with eq show ?case by auto
qed

lemma retry_loop_extends:
  "\<exists>rest. snd (retry_loop host cfg href options a le tr) = tr @ rest"
proof (induction host cfg href options a le tr rule: retry_loop.induct)
  case (1 host cfg href options attempt lastError tr)
  show ?case
  proof (cases "int attempt \<le> cfg_retries cfg")
    case False
    then show ?thesis by (subst retry_loop.simps) simp
  next
    case True
    show ?thesis
    proof (cases "attempt_once host cfg href options (Suc (fetch_count tr))")
      case (Inr v)
      with True show ?thesis by (simp add: retry_loop_success)
    next
      case (Inl e)
      show ?thesis
      proof (cases "int (attempt + 1) \<le> cfg_retries cfg \<and> \<not> isFatalError e")
        case False
        with True Inl have "isFatalError e \<or> int attempt = cfg_retries cfg" by auto
        from retry_loop_stop [OF True Inl this] show ?thesis by simp
      next
        case retry: True
        from "1.IH" [OF True refl refl Inl retry]
        obtain rest where
          "snd (retry_loop host cfg href options (attempt + 1) (Some e)
                  (wait (cfg_retryDelay cfg * 2 ^ (attempt + 1 - 1)) (tr @ [Fetch href options])))
           = wait (cfg_retryDelay cfg * 2 ^ (attempt + 1 - 1)) (tr @ [Fetch href options]) @ rest"
          by blast
        moreover have "retry_loop host cfg href options attempt lastError tr =
            retry_loop host cfg href options (attempt + 1) (Some e)
              (wait (cfg_retryDelay cfg * 2 ^ (attempt + 1 - 1)) (tr @ [Fetch href options]))"
          using True Inl retry by (subst retry_loop.simps) simp
        ultimately show ?thesis by (simp add: wait_def)
      qed
    qed
  qed
qed

lemma retry_loop_fetches_next:
  assumes "int a \<le> cfg_retries cfg"
  shows "\<exists>rest. snd (retry_loop host cfg href options a le tr) =
                 tr @ Fetch href options # rest"
proof (cases "attempt_once host cfg href options (Suc (fetch_count tr))")
  case (Inr v)
  with assms show ?thesis by (simp add: retry_loop_success)
next
  case (Inl e)
  show ?thesis
  proof (cases "int a < cfg_retries cfg \<and> \<not> isFatalError e")
    case True
    then have "retry_loop host cfg href options a le tr =
         retry_loop host cfg href options (Suc a) (Some e)
           (tr @ [Fetch href options, Wait (cfg_retryDelay cfg * 2 ^ a)])"
      using retry_loop_retry [of a cfg host href options tr e le] Inl by simp
    moreover obtain rest where
      "snd (retry_loop host cfg href options (Suc a) (Some e)
              (tr @ [Fetch href options, Wait (cfg_retryDelay cfg * 2 ^ a)])) =
       (tr @ [Fetch href options, Wait (cfg_retryDelay cfg * 2 ^ a)]) @ rest"
      using retry_loop_extends by blast
    ultimately show ?thesis by simp
  next
    case False
    with assms have "isFatalError e \<or> int a = cfg_retries cfg" by auto
    from retry_loop_stop [OF assms Inl this] show ?thesis by simp
  qed
qed

lemma retry_loop_exhausts:
  assumes "0 \<le> cfg_retries cfg"
    and "\<forall>k. 1 \<le> k \<and> k \<le> nat (cfg_retries cfg) + 1 \<longrightarrow>
           (\<exists>e. attempt_once host cfg href options k = Inl e \<and> \<not> isFatalError e)"
  shows "\<exists>e. attempt_once host cfg href options (nat (cfg_retries cfg) + 1) = Inl e \<and>
             retry_loop host cfg href options 0 None [] =
               (Inl (Throw (enhanceError e
                  \<lparr> ctx_url = href, ctx_method = cfg_method cfg,
                    ctx_attempt = nat (cfg_retries cfg) + 1 \<rparr>)),
                backoff_trace href options (cfg_retryDelay cfg) (nat (cfg_retries cfg))
                @ [Fetch href options])"
proof -
  let ?R = "nat (cfg_retries cfg)"
  have R: "int ?R = cfg_retries cfg" using assms(1) by simp
  from assms(2) have "\<forall>k. 1 \<le> k \<and> k \<le> ?R \<longrightarrow>
      (\<exists>e. attempt_once host cfg href options k = Inl e \<and> \<not> isFatalError e)" by auto
  from retry_loop_prefix [OF this] R obtain le where
    eq: "retry_loop host cfg href options 0 None [] =
         retry_loop host cfg href options ?R le
           (backoff_trace href options (cfg_retryDelay cfg) ?R)" by auto
  from assms(2) obtain e where
    e: "attempt_once host cfg href options (Suc ?R) = Inl e" by auto
  have "retry_loop host cfg href options ?R le
          (backoff_trace href options (cfg_retryDelay cfg) ?R) =
        (Inl (Throw (enhanceError e
            \<lparr> ctx_url = href, ctx_method = cfg_method cfg, ctx_attempt = Suc ?R \<rparr>)),
         backoff_trace href options (cfg_retryDelay cfg) ?R @ [Fetch href options])"
    using retry_loop_stop [of ?R cfg host href options
        "backoff_trace href options (cfg_retryDelay cfg) ?R" e le] R e
    by (simp add: fetch_count_backoff_trace)
  with eq e show ?thesis by auto
qed

lemma retry_loop_fatal_at:
  assumes "1 \<le> N" and "int N \<le> cfg_retries cfg + 1"
    and "\<forall>k. 1 \<le> k \<and> k < N \<longrightarrow>
           (\<exists>e. attempt_once host cfg href options k = Inl e \<and> \<not> isFatalError e)"
    and "attempt_once host cfg href options N = Inl e"
    and "isFatalError e"
  shows "retry_loop host cfg href options 0 None [] =
           (Inl (Throw (enhanceError e
              \<lparr> ctx_url = href, ctx_method = cfg_method cfg, ctx_attempt = N \<rparr>)),
            backoff_trace href options (cfg_retryDelay cfg) (N - 1) @ [Fetch href options])"
proof -
  obtain n where N: "N = Suc n" using assms(1) by (cases N) auto
  have n: "int n \<le> cfg_retries cfg" using assms(2) N by simp
  from assms(3) N have "\<forall>k. 1 \<le> k \<and> k \<le> n \<longrightarrow>
      (\<exists>e. attempt_once host cfg href options k = Inl e \<and> \<not> isFatalError e)" by auto
  from retry_loop_prefix [OF this n] obtain le where
    eq: "retry_loop host cfg href options 0 None [] =
         retry_loop host cfg href options n le
           (backoff_trace href options (cfg_retryDelay cfg) n)" by auto
  have "retry_loop host cfg href options n le
          (backoff_trace href options (cfg_retryDelay cfg) n) =
        (Inl (Throw (enhanceError e
            \<lparr> ctx_url = href, ctx_method = cfg_method cfg, ctx_attempt = Suc n \<rparr>)),
         backoff_trace href options (cfg_retryDelay cfg) n @ [Fetch href options])"
    using retry_loop_stop [of n cfg host href options
        "backoff_trace href options (cfg_retryDelay cfg) n" e le] n assms(4,5) N
    by (simp add: fetch_count_backoff_trace)
  with eq N show ?thesis by simp
qed

lemma fetchEnhanced_loop:
  assumes "host_URL host url = Inr u"
  shows "fetchEnhanced host url cfg =
         retry_loop host cfg (final_href u cfg) (request_options_of host cfg) 0 None []"
  using assms by (simp add: fetchEnhanced_def final_href_def)

lemma fetch_count_snoc_Fetch: "fetch_count (tr @ [Fetch href options]) = Suc (fetch_count tr)"
  by (simp add: fetch_count_def)

lemma attempt_once_transport_error:
  "host_fetch host k href options = Inl e \<Longrightarrow> attempt_once host cfg href options k = Inl e"
  by (simp add: attempt_once_def)

lemma attempt_once_rejected:
  assumes "host_fetch host k href options = Inr r"
    and "\<not> cfg_validateStatus cfg (resp_status r)"
  shows "\<exists>d. attempt_once host cfg href options k =
           Inl (FetchError (''Request failed with status '' @ int_to_string (resp_status r))
                  (resp_status r) d)"
proof -
  obtain d where "parseErrorResponse r = Inr d" using parseErrorResponse_Inr by blast
  with assms show ?thesis by (auto simp: attempt_once_def)
qed

lemma isFatalError_FetchError:
  "isFatalError (FetchError m s d) \<longleftrightarrow> 400 \<le> s \<and> s < 500"
  by (auto simp: isFatalError_def FetchError_def)

lemma err_status_FetchError: "err_status (FetchError m s d) = Some s"
  by (simp add: FetchError_def)

lemma retry_loop_events:
  "ev \<in> set (snd (retry_loop host cfg href options a le tr)) \<Longrightarrow>
   ev \<in> set tr \<or> ev = Fetch href options \<or> (\<exists>ms. ev = Wait ms)"
proof (induction host cfg href options a le tr rule: retry_loop.induct)
  case (1 host cfg href options attempt lastError tr)
  show ?case
  proof (cases "int attempt \<le> cfg_retries cfg")
    case False
    with "1.prems" show ?thesis by (subst (asm) retry_loop.simps) simp
  next
    case True
    show ?thesis
    proof (cases "attempt_once host cfg href options (Suc (fetch_count tr))")
      case (Inr v)
      with True "1.prems" show ?thesis by (auto simp: retry_loop_success)
    next
      case (Inl e)
      show ?thesis
      proof (cases "int (attempt + 1) \<le> cfg_retries cfg \<and> \<not> isFatalError e")
        case False
        with True Inl have "isFatalError e \<or> int attempt = cfg_retries cfg" by auto
        from retry_loop_stop [OF True Inl this] "1.prems" show ?thesis by auto
      next
        case retry: True
        have "retry_loop host cfg href options attempt lastError tr =
            retry_loop host cfg href options (attempt + 1) (Some e)
              (wait (cfg_retryDelay cfg * 2 ^ (attempt + 1 - 1)) (tr @ [Fetch href options]))"
          using True Inl retry by (subst retry_loop.simps) simp
        with "1.prems" "1.IH" [OF True refl refl Inl retry]
        show ?thesis by (auto simp: wait_def)
      qed
    qed
  qed
qed

lemma fetchEnhanced_events:
  assumes "ev \<in> set (snd (fetchEnhanced host url cfg))"
  shows "(\<exists>u. host_URL host url = Inr u \<and> ev = Fetch (final_href u cfg) (request_options_of host cfg))
         \<or> (\<exists>ms. ev = Wait ms)"
proof (cases "host_URL host url")
  case (Inl e)
  with assms show ?thesis by (simp add: fetchEnhanced_def)
next
  case (Inr u)
  from assms fetchEnhanced_loop [OF Inr, of cfg]
  have "ev \<in> set (snd (retry_loop host cfg (final_href u cfg) (request_options_of host cfg) 0 None []))"
    by simp
  from retry_loop_events [OF this] Inr show ?thesis by auto
qed

section \<open>The query string\<close>

lemma hex_digit_unhex: "n < 16 \<Longrightarrow> unhex (hex_digit n) = Some n"
  by (simp add: unhex_def hex_digit_def Let_def)

lemma hex_digit_keep: "n < 16 \<Longrightarrow> urlencoded_keep (hex_digit n)"
  by (auto simp: urlencoded_keep_def hex_digit_def Let_def)

lemma urlencoded_keep_not_reserved:
  assumes "urlencoded_keep c"
  shows "c \<noteq> CHR ''&''" "c \<noteq> CHR ''=''" "c \<noteq> CHR ''+''" "c \<noteq> CHR ''%''" "c \<noteq> CHR '' ''"
    "c \<noteq> CHR ''?''" "c \<noteq> CHR ''#''"
  using assms by (auto simp: urlencoded_keep_def Let_def)

lemma urlencode_char_cases:
  "urlencode_char c = ''+'' \<and> c = CHR '' '' \<or>
   urlencode_char c = [c] \<and> urlencoded_keep c \<or>
   (\<exists>x y. urlencode_char c = [CHR ''%'', x, y] \<and> urlencoded_keep x \<and> urlencoded_keep y \<and>
          unhex x = Some ((of_char c :: nat) div 16) \<and> unhex y = Some ((of_char c :: nat) mod 16))"
proof -
  have d: "(of_char c :: nat) div 16 < 16"
    using nat_of_char_less_256 [of c] by (simp add: less_mult_imp_div_less)
  have m: "(of_char c :: nat) mod 16 < 16" by simp
  show ?thesis
    using hex_digit_unhex [OF d] hex_digit_unhex [OF m] hex_digit_keep [OF d] hex_digit_keep [OF m]
    by (simp add: urlencode_char_def)
qed

lemma urlencode_Cons: "urlencode (c # s) = urlencode_char c @ urlencode s"
  by (simp add: urlencode_def)

lemma urlencode_chars:
  "c \<in> set (urlencode s) \<Longrightarrow> c = CHR ''+'' \<or> c = CHR ''%'' \<or> urlencoded_keep c"
proof (induction s)
  case Nil
  then show ?case by (simp add: urlencode_def)
next
  case (Cons a s)
  from urlencode_char_cases [of a] Cons show ?case
    by (auto simp: urlencode_Cons)
qed

lemma urlencode_no_separator:
  "CHR ''&'' \<notin> set (urlencode s)" "CHR ''='' \<notin> set (urlencode s)"
  "CHR ''?'' \<notin> set (urlencode s)" "CHR ''#'' \<notin> set (urlencode s)"
  using urlencode_chars [of _ s] urlencoded_keep_not_reserved by fastforce+

lemma plus_to_space_Cons:
  "plus_to_space (c # s) = (if c = CHR ''+'' then CHR '' '' else c) # plus_to_space s"
  by (simp add: plus_to_space_def)

lemma percent_decode_urlencode: "percent_decode (plus_to_space (urlencode s)) = s"
proof (induction s)
  case Nil
  show ?case by (simp add: urlencode_def plus_to_space_def)
next
  case (Cons c s)
  from urlencode_char_cases [of c] show ?case
  proof (elim disjE conjE exE)
    assume "urlencode_char c = ''+''" "c = CHR '' ''"
    with Cons show ?thesis by (simp add: urlencode_Cons plus_to_space_Cons)
  next
    assume "urlencode_char c = [c]" "urlencoded_keep c"
    with Cons urlencoded_keep_not_reserved [of c] show ?thesis
      by (simp add: urlencode_Cons plus_to_space_Cons)
  next
    fix x y
    assume enc: "urlencode_char c = [CHR ''%'', x, y]"
      and keep: "urlencoded_keep x" "urlencoded_keep y"
      and hex: "unhex x = Some ((of_char c :: nat) div 16)"
        "unhex y = Some ((of_char c :: nat) mod 16)"
    have "char_of (16 * ((of_char c :: nat) div 16) + (of_char c :: nat) mod 16) = c"
      by simp
    with Cons enc hex urlencoded_keep_not_reserved [OF keep(1)]
      urlencoded_keep_not_reserved [OF keep(2)]
    show ?thesis
      by (simp add: urlencode_Cons plus_to_space_Cons)
  qed
qed

lemma urlencoded_parse_pair_inverse: "urlencoded_parse_pair (urlencoded_pair p) = p"
proof -
  have no: "\<forall>c \<in> set (urlencode (fst p)). c \<noteq> CHR ''=''"
    using urlencode_no_separator(2) [of "fst p"] by auto
  have t: "takeWhile (\<lambda>c. c \<noteq> CHR ''='') (urlencoded_pair p) = urlencode (fst p)"
    unfolding urlencoded_pair_def using no by (simp add: takeWhile_append2)
  have d: "dropWhile (\<lambda>c. c \<noteq> CHR ''='') (urlencoded_pair p) = CHR ''='' # urlencode (snd p)"
    unfolding urlencoded_pair_def using no by (simp add: dropWhile_append2)
  show ?thesis
    by (simp add: urlencoded_parse_pair_def t d percent_decode_urlencode)
qed

lemma split_on_none: "sep \<notin> set x \<Longrightarrow> split_on sep x = [x]"
  by (induction x) auto

lemma split_on_first:
  "sep \<notin> set x \<Longrightarrow> split_on sep (x @ sep # rest) = x # split_on sep rest"
  by (induction x) auto

lemma split_on_join_amp:
  assumes "xs \<noteq> []" and "\<forall>x \<in> set xs. CHR ''&'' \<notin> set x"
  shows "split_on CHR ''&'' (join_amp xs) = xs"
  using assms
proof (induction xs rule: join_amp.induct)
  case 1
  then show ?case by simp
next
  case (2 x)
  then show ?case by (simp add: split_on_none)
next
  case (3 x y zs)
  then show ?case by (simp add: split_on_first)
qed

lemma urlencoded_pair_no_amp: "CHR ''&'' \<notin> set (urlencoded_pair p)"
  using urlencode_no_separator(1) by (simp add: urlencoded_pair_def)

lemma urlencoded_pair_nonempty: "urlencoded_pair p \<noteq> []"
  by (simp add: urlencoded_pair_def)

lemma join_amp_nonempty: "xs \<noteq> [] \<Longrightarrow> \<forall>x \<in> set xs. x \<noteq> [] \<Longrightarrow> join_amp xs \<noteq> []"
  by (induction xs rule: join_amp.induct) auto

lemma urlencoded_serialize_nonempty: "ps \<noteq> [] \<Longrightarrow> urlencoded_serialize ps \<noteq> []"
  unfolding urlencoded_serialize_def
  by (rule join_amp_nonempty) (auto simp: urlencoded_pair_nonempty)

lemma urlencoded_parse_serialize: "urlencoded_parse (urlencoded_serialize ps) = ps"
proof (cases "ps = []")
  case True
  then show ?thesis by (simp add: urlencoded_parse_def urlencoded_serialize_def)
next
  case False
  have "split_on CHR ''&'' (join_amp (map urlencoded_pair ps)) = map urlencoded_pair ps"
    by (rule split_on_join_amp) (use False urlencoded_pair_no_amp in auto)
  moreover have "filter (\<lambda>piece. piece \<noteq> []) (map urlencoded_pair ps) = map urlencoded_pair ps"
    by (simp add: urlencoded_pair_nonempty)
  ultimately show ?thesis
    by (simp add: urlencoded_parse_def urlencoded_serialize_def urlencoded_parse_pair_inverse
        comp_def)
qed

lemma append_query_fields:
  "url_base (append_query u query) = url_base u \<and>
   url_hash (append_query u query) = url_hash u \<and>
   url_params (append_query u query) = url_params u @ kept_entries query \<and>
   url_query (append_query u query) =
     (if kept_entries query = [] then url_query u
      else Some (urlencoded_serialize (url_params u @ kept_entries query)))"
proof (induction query arbitrary: u)
  case Nil
  show ?case by (simp add: append_query_def kept_entries_def)
next
  case (Cons entry query)
  obtain key val where entry: "entry = (key, val)" by (cases entry)
  have step: "append_query u (entry # query) =
      append_query (if val \<noteq> JUndefined then searchParams_append u key (ToString val) else u) query"
    by (simp add: append_query_def entry)
  show ?case
  proof (cases "val = JUndefined")
    case True
    with Cons [of u] step entry show ?thesis by (simp add: kept_entries_def)
  next
    case False
    let ?u = "searchParams_append u key (ToString val)"
    have u': "url_base ?u = url_base u" "url_hash ?u = url_hash u"
      "url_params ?u = url_params u @ [(key, ToString val)]"
      "url_query ?u = Some (urlencoded_serialize (url_params u @ [(key, ToString val)]))"
      by (simp_all add: searchParams_append_def Let_def urlencoded_serialize_nonempty)
    have k: "kept_entries (entry # query) = (key, ToString val) # kept_entries query"
      using False by (simp add: kept_entries_def entry)
    from Cons [of ?u] step False show ?thesis
      by (simp add: u' k)
  qed
qed

section \<open>The two variants, side by side\<close>

lemma errors_agree_refl: "errors_agree e e"
  by (simp add: errors_agree_def)

lemma errors_agree_fatal: "errors_agree e d \<Longrightarrow> isFatalError e = isFatalError d"
  by (simp add: errors_agree_def isFatalError_def)

lemma errors_agree_enhance:
  assumes "errors_agree e d" and "ctx_url c = ctx_url c'" and "ctx_attempt c = ctx_attempt c'"
  shows "errors_agree (enhanceError e c) (enhanceError d c')"
  using assms by (auto simp: errors_agree_def enhanceError_def split: option.splits)

lemma parseResponse_doc_eq: "parseResponse_doc r t = parseResponse r t"
  by (simp add: parseResponse_doc_def parseResponse_def Let_def)

lemma request_options_of_doc_eq: "request_options_of_doc host cfg = request_options_of host cfg"
  by (cases "cfg_headers cfg ''Content-Type''")
     (auto simp: request_options_of_doc_def request_options_of_def Let_def base_options_def)

lemma attempts_agree_refl: "attempts_agree x x"
  by (cases x) (simp_all add: errors_agree_refl)

lemma parseErrorResponse_agree:
  "\<exists>p q. parseErrorResponse r = Inr p \<and> parseErrorResponse_doc r = Inr q \<and>
         (p = q \<or> (p = JNull \<and> q = JStr (parse_failure_text (resp_status r))))"
  by (cases "resp_json r"; cases "resp_text r")
     (simp_all add: parseErrorResponse_def parseErrorResponse_doc_def try_catch_def
        parse_failure_text_def)

lemma attempt_once_agree:
  "attempts_agree (attempt_once host cfg href options k)
                  (attempt_once_doc host cfg href options k)"
proof (cases "host_fetch host k href options")
  case (Inl e)
  then show ?thesis
    by (simp add: attempt_once_def attempt_once_doc_def errors_agree_refl)
next
  case (Inr r)
  show ?thesis
  proof (cases "cfg_validateStatus cfg (resp_status r)")
    case True
    with Inr show ?thesis
      by (simp add: attempt_once_def attempt_once_doc_def parseResponse_doc_eq
          attempts_agree_refl)
  next
    case False
    from parseErrorResponse_agree [of r] obtain p q where
      pq: "parseErrorResponse r = Inr p" "parseErrorResponse_doc r = Inr q"
      "p = q \<or> (p = JNull \<and> q = JStr (parse_failure_text (resp_status r)))" by blast
    with Inr False show ?thesis
      by (auto simp: attempt_once_def attempt_once_doc_def errors_agree_def FetchError_def)
  qed
qed

lemma retry_loop_doc_agree:
  "last_errors_agree le le' \<Longrightarrow>
   outcomes_agree (fst (retry_loop host cfg href options a le tr))
                  (fst (retry_loop_doc host cfg href options a le' tr)) \<and>
   snd (retry_loop host cfg href options a le tr) =
   snd (retry_loop_doc host cfg href options a le' tr)"
proof (induction host cfg href options a le tr arbitrary: le' rule: retry_loop.induct)
  case (1 host cfg href options attempt lastError tr)
  show ?case
  proof (cases "int attempt \<le> cfg_retries cfg")
    case False
    with "1.prems" show ?thesis
      by (subst retry_loop.simps, subst retry_loop_doc.simps, subst (2) retry_loop.simps,
          subst (2) retry_loop_doc.simps)
         (cases lastError; cases le'; simp)
  next
    case True
    note agree = attempt_once_agree [of host cfg href options "Suc (fetch_count tr)"]
    show ?thesis
    proof (cases "attempt_once host cfg href options (Suc (fetch_count tr))")
      case (Inr v)
      with agree have "attempt_once_doc host cfg href options (Suc (fetch_count tr)) = Inr v"
        by (cases "attempt_once_doc host cfg href options (Suc (fetch_count tr))") auto
      with Inr True show ?thesis
        by (subst retry_loop.simps, subst retry_loop_doc.simps, subst (2) retry_loop.simps,
            subst (2) retry_loop_doc.simps) simp
    next
      case (Inl e)
      with agree obtain d where
        d: "attempt_once_doc host cfg href options (Suc (fetch_count tr)) = Inl d"
        and ed: "errors_agree e d"
        by (cases "attempt_once_doc host cfg href options (Suc (fetch_count tr))") auto
      note fatal = errors_agree_fatal [OF ed]
      show ?thesis
      proof (cases "int (attempt + 1) \<le> cfg_retries cfg \<and> \<not> isFatalError e")
        case False
        have l: "retry_loop host cfg href options attempt lastError tr =
            (Inl (Throw (enhanceError e
               \<lparr> ctx_url = href, ctx_method = cfg_method cfg, ctx_attempt = attempt + 1 \<rparr>)),
             tr @ [Fetch href options])"
          using True Inl False by (subst retry_loop.simps) auto
        have r: "retry_loop_doc host cfg href options attempt le' tr =
            (Inl (Throw (enhanceError d
               \<lparr> ctx_url = href, ctx_method = opt_method options, ctx_attempt = attempt + 1 \<rparr>)),
             tr @ [Fetch href options])"
          using True d False fatal by (subst retry_loop_doc.simps) auto
        show ?thesis
          unfolding l r using errors_agree_enhance [OF ed] by simp
      next
        case retry: True
        have l: "retry_loop host cfg href options attempt lastError tr =
            retry_loop host cfg href options (attempt + 1) (Some e)
              (wait (cfg_retryDelay cfg * 2 ^ (attempt + 1 - 1)) (tr @ [Fetch href options]))"
          using True Inl retry by (subst retry_loop.simps) simp
        have r: "retry_loop_doc host cfg href options attempt le' tr =
            retry_loop_doc host cfg href options (attempt + 1) (Some d)
              (wait (cfg_retryDelay cfg * 2 ^ (attempt + 1 - 1)) (tr @ [Fetch href options]))"
          using True d retry fatal by (subst retry_loop_doc.simps) simp
        have "last_errors_agree (Some e) (Some d)" using ed by simp
        from "1.IH" [OF True refl refl Inl retry this] show ?thesis
          unfolding l r .
      qed
    qed
  qed
qed

lemma retry_loop_doc_stop:
  assumes "int a \<le> cfg_retries cfg"
    and "attempt_once_doc host cfg href options (Suc (fetch_count tr)) = Inl e"
    and "isFatalError e \<or> int a = cfg_retries cfg"
  shows "retry_loop_doc host cfg href options a le tr =
         (Inl (Throw (enhanceError e
            \<lparr> ctx_url = href, ctx_method = opt_method options, ctx_attempt = Suc a \<rparr>)),
          tr @ [Fetch href options])"
  using assms by (subst retry_loop_doc.simps) auto

text \<open>
  What an error thrown out of the retry loop carries, in each variant: the final URL, the
  number of requests issued as its attempt number, and as its method the caller's own
  string in \<^verbatim>\<open>fetch.js\<close>, the upper-cased one in the documented variant.
\<close>

lemma retry_loop_thrown_fields:
  assumes "int a \<le> cfg_retries cfg" and "fetch_count tr = a"
    and "fst (retry_loop host cfg href options a le tr) = Inl t"
  shows "\<exists>e. t = Throw e \<and> err_url e = Some href \<and> err_method e = Some (cfg_method cfg) \<and>
             err_attempt e = Some (fetch_count (snd (retry_loop host cfg href options a le tr)))"
  using assms
proof (induction host cfg href options a le tr rule: retry_loop.induct)
  case (1 host cfg href options attempt lastError tr)
  note budget = "1.prems"(1) and count = "1.prems"(2) and thrown = "1.prems"(3)
  show ?case
  proof (cases "attempt_once host cfg href options (Suc (fetch_count tr))")
    case (Inr v)
    with budget thrown show ?thesis by (simp add: retry_loop_success)
  next
    case (Inl e)
    show ?thesis
    proof (cases "int (attempt + 1) \<le> cfg_retries cfg \<and> \<not> isFatalError e")
      case False
      with budget Inl have "isFatalError e \<or> int attempt = cfg_retries cfg" by auto
      from retry_loop_stop [OF budget Inl this] thrown count show ?thesis
        by (auto simp: enhanceError_def fetch_count_snoc_Fetch)
    next
      case retry: True
      let ?tr = "wait (cfg_retryDelay cfg * 2 ^ (attempt + 1 - 1)) (tr @ [Fetch href options])"
      have step: "retry_loop host cfg href options attempt lastError tr =
            retry_loop host cfg href options (attempt + 1) (Some e) ?tr"
        using budget Inl retry by (subst retry_loop.simps) simp
      have c: "fetch_count ?tr = attempt + 1"
        using count by (simp add: wait_def fetch_count_def)
      from "1.IH" [OF budget refl refl Inl retry _ c] retry thrown step
      show ?thesis by simp
    qed
  qed
qed

lemma fetchEnhanced_thrown_fields:
  assumes "host_URL host url = Inr u" and "0 \<le> cfg_retries cfg"
    and "fst (fetchEnhanced host url cfg) = Inl t"
  shows "\<exists>e. t = Throw e \<and> err_url e = Some (final_href u cfg) \<and>
             err_method e = Some (cfg_method cfg) \<and>
             err_attempt e = Some (fetch_count (snd (fetchEnhanced host url cfg)))"
proof -
  have "fetch_count [] = 0" by (simp add: fetch_count_def)
  with retry_loop_thrown_fields [of 0 cfg "[]" host "final_href u cfg"
      "request_options_of host cfg" None t] assms
  show ?thesis by (simp add: fetchEnhanced_loop)
qed

lemma retry_loop_doc_thrown_fields:
  assumes "int a \<le> cfg_retries cfg" and "fetch_count tr = a"
    and "fst (retry_loop_doc host cfg href options a le tr) = Inl t"
  shows "\<exists>e. t = Throw e \<and> err_url e = Some href \<and> err_method e = Some (opt_method options) \<and>
             err_attempt e = Some (fetch_count (snd (retry_loop_doc host cfg href options a le tr)))"
  using assms
proof (induction host cfg href options a le tr rule: retry_loop_doc.induct)
  case (1 host cfg href options attempt lastError tr)
  note budget = "1.prems"(1) and count = "1.prems"(2) and thrown = "1.prems"(3)
  show ?case
  proof (cases "attempt_once_doc host cfg href options (Suc (fetch_count tr))")
    case (Inr v)
    with budget thrown show ?thesis by (subst (asm) retry_loop_doc.simps) simp
  next
    case (Inl e)
    show ?thesis
    proof (cases "int (attempt + 1) \<le> cfg_retries cfg \<and> \<not> isFatalError e")
      case False
      with budget Inl have "isFatalError e \<or> int attempt = cfg_retries cfg" by auto
      from retry_loop_doc_stop [OF budget Inl this] thrown count show ?thesis
        by (auto simp: enhanceError_def fetch_count_snoc_Fetch)
    next
      case retry: True
      let ?tr = "wait (cfg_retryDelay cfg * 2 ^ (attempt + 1 - 1)) (tr @ [Fetch href options])"
      have step: "retry_loop_doc host cfg href options attempt lastError tr =
            retry_loop_doc host cfg href options (attempt + 1) (Some e) ?tr"
        using budget Inl retry by (subst retry_loop_doc.simps) simp
      have c: "fetch_count ?tr = attempt + 1"
        using count by (simp add: wait_def fetch_count_def)
      from "1.IH" [OF budget refl refl Inl retry refl _ c] retry thrown step
      show ?thesis by simp
    qed
  qed
qed

lemma fetchEnhanced_doc_thrown_fields:
  assumes "host_URL host url = Inr u" and "0 \<le> cfg_retries cfg"
    and "fst (fetchEnhanced_doc host url cfg) = Inl t"
  shows "\<exists>e. t = Throw e \<and> err_url e = Some (final_href u cfg) \<and>
             err_method e = Some (toUpperCase (cfg_method cfg)) \<and>
             err_attempt e = Some (fetch_count (snd (fetchEnhanced_doc host url cfg)))"
proof -
  have "fetch_count [] = 0" by (simp add: fetch_count_def)
  moreover have "opt_method (request_options_of_doc host cfg) = toUpperCase (cfg_method cfg)"
    by (simp add: request_options_of_doc_def base_options_def Let_def)
  ultimately show ?thesis
    using retry_loop_doc_thrown_fields [of 0 cfg "[]" host "final_href u cfg"
      "request_options_of_doc host cfg" None t] assms
    by (simp add: fetchEnhanced_doc_def final_href_def)
qed

section \<open>Cancellation\<close>

text \<open>
  An attempt that fails with an error named \<^verbatim>\<open>AbortError\<close>, thrown by the transport or by
  the reading of an accepted response, ends the call at that attempt \<open>N\<close>: \<open>N\<close> requests,
  no further sleep, and that same error thrown with the URL, the method and the attempt
  number.
\<close>

lemma abort_error_stops_retries:
  assumes "host_URL host url = Inr u"
    and "1 \<le> N" and "int N \<le> cfg_retries cfg + 1"
    and "\<forall>k. 1 \<le> k \<and> k < N \<longrightarrow>
           (\<exists>e. attempt_once host cfg (final_href u cfg) (request_options_of host cfg) k = Inl e
                \<and> \<not> isFatalError e)"
    and "attempt_once host cfg (final_href u cfg) (request_options_of host cfg) N = Inl e"
    and "err_name e = ''AbortError''"
  shows "fetch_count (snd (fetchEnhanced host url cfg)) = N \<and>
         snd (fetchEnhanced host url cfg) =
           backoff_trace (final_href u cfg) (request_options_of host cfg) (cfg_retryDelay cfg)
             (N - 1)
           @ [Fetch (final_href u cfg) (request_options_of host cfg)] \<and>
         fst (fetchEnhanced host url cfg) =
           Inl (Throw (e\<lparr> err_url := Some (final_href u cfg),
                           err_method := Some (cfg_method cfg),
                           err_attempt := Some N \<rparr>)) \<and>
         (\<exists>e'. fst (fetchEnhanced host url cfg) = Inl (Throw e') \<and>
               err_name e' = ''AbortError'')"
proof -
  have fatal: "isFatalError e" using assms(6) by (simp add: isFatalError_def)
  from retry_loop_fatal_at [OF assms(2,3,4,5) fatal] fetchEnhanced_loop [OF assms(1), of cfg]
  have "fetchEnhanced host url cfg =
        (Inl (Throw (enhanceError e
           \<lparr> ctx_url = final_href u cfg, ctx_method = cfg_method cfg, ctx_attempt = N \<rparr>)),
         backoff_trace (final_href u cfg) (request_options_of host cfg) (cfg_retryDelay cfg)
           (N - 1)
         @ [Fetch (final_href u cfg) (request_options_of host cfg)])"
    by simp
  with assms(2,6) show ?thesis
    by (simp add: fetch_count_snoc_Fetch fetch_count_backoff_trace enhanceError_def)
qed

lemma abort_error_stops_retries_example:
  "fetch_count (snd (fetchEnhanced (abort_at_host 2) ''http://a/'' default_config)) = 2 \<and>
   (\<exists>e'. fst (fetchEnhanced (abort_at_host 2) ''http://a/'' default_config) = Inl (Throw e') \<and>
         err_name e' = ''AbortError'')"
proof -
  have 1: "host_URL (abort_at_host 2) ''http://a/'' = Inr (plain_URL ''http://a/'')"
    by (simp add: abort_at_host_def stub_host_def)
  have 2: "1 \<le> (2::nat)" by simp
  have 3: "int 2 \<le> cfg_retries default_config + 1" by (simp add: default_config_def)
  have 4: "\<forall>k. 1 \<le> k \<and> k < 2 \<longrightarrow>
           (\<exists>e. attempt_once (abort_at_host 2) default_config
                   (final_href (plain_URL ''http://a/'') default_config)
                   (request_options_of (abort_at_host 2) default_config) k = Inl e
                \<and> \<not> isFatalError e)"
    by (auto simp: attempt_once_def abort_at_host_def stub_host_def isFatalError_def
        plain_error_def)
  have 5: "attempt_once (abort_at_host 2) default_config
             (final_href (plain_URL ''http://a/'') default_config)
             (request_options_of (abort_at_host 2) default_config) 2 =
           Inl (plain_error ''AbortError'' ''The operation was aborted'')"
    by (simp add: attempt_once_def abort_at_host_def stub_host_def)
  have 6: "err_name (plain_error ''AbortError'' ''The operation was aborted'') = ''AbortError''"
    by (simp add: plain_error_def)
  from abort_error_stops_retries [OF 1 2 3 4 5 6] show ?thesis by blast
qed

text \<open>
  An abort while the body of a rejected response is read does not reach the retry logic:
  \<^verbatim>\<open>parseErrorResponse\<close> catches it. A 404 so aborted is thrown as a \<^verbatim>\<open>FetchError\<close> with
  the payload \<^verbatim>\<open>null\<close>; a 503 so aborted is retried after the first sleep, and only the
  second request ends the call.
\<close>

lemma abort_while_reading_swallowed:
  "fst (fetchEnhanced (abort_while_reading_host 404) ''http://a/'' default_config) =
     Inl (Throw \<lparr> err_name = ''FetchError'', err_message = ''Request failed with status 404'',
                  err_is_TypeError = False, err_status = Some 404, err_data = Some JNull,
                  err_url = Some ''http://a/'', err_method = Some ''GET'',
                  err_attempt = Some 1 \<rparr>) \<and>
   snd (fetchEnhanced (abort_while_reading_host 503) ''http://a/'' default_config) =
     [Fetch ''http://a/'' (request_options_of (abort_while_reading_host 503) default_config),
      Wait 1000,
      Fetch ''http://a/'' (request_options_of (abort_while_reading_host 503) default_config)]"
proof -
  have u: "host_URL (abort_while_reading_host s) ''http://a/'' = Inr (plain_URL ''http://a/'')"
    for s
    by (simp add: abort_while_reading_host_def stub_host_def)
  have href: "final_href (plain_URL ''http://a/'') default_config = ''http://a/''"
    by (simp add: final_href_def append_query_def URL_toString_def plain_URL_def
        default_config_def)
  have s404: "int_to_string 404 = ''404''" and s503: "int_to_string 503 = ''503''"
    by code_simp+
  have a1: "attempt_once (abort_while_reading_host s) default_config h opts 1 =
      Inl (FetchError (''Request failed with status '' @ int_to_string s) s JNull)"
    if "s = 404 \<or> s = 503" for s h opts
    using that
    by (auto simp: attempt_once_def abort_while_reading_host_def stub_host_def
        aborted_body_response_def default_config_def parseErrorResponse_def try_catch_def)
  have a2: "attempt_once (abort_while_reading_host s) default_config h opts 2 =
      Inl (plain_error ''AbortError'' ''The operation was aborted'')" for s h opts
    by (simp add: attempt_once_def abort_while_reading_host_def stub_host_def)
  have R: "0 \<le> cfg_retries default_config" "cfg_retryDelay default_config = 1000"
    "cfg_method default_config = ''GET''"
    by (simp_all add: default_config_def)
  have l: "retry_loop (abort_while_reading_host 404) default_config ''http://a/'' opts 0 None [] =
      (Inl (Throw (enhanceError (FetchError ''Request failed with status 404'' 404 JNull)
          \<lparr> ctx_url = ''http://a/'', ctx_method = ''GET'', ctx_attempt = 1 \<rparr>)),
       [Fetch ''http://a/'' opts])" for opts
    using retry_loop_fatal_at [where N = 1 and host = "abort_while_reading_host 404"
        and cfg = default_config and href = "''http://a/''" and options = opts
        and e = "FetchError ''Request failed with status 404'' 404 JNull"]
      a1 [of 404 "''http://a/''" opts]
    by (simp add: R s404 isFatalError_FetchError default_config_def)
  have r: "retry_loop (abort_while_reading_host 503) default_config ''http://a/'' opts 0 None [] =
      (Inl (Throw (enhanceError (plain_error ''AbortError'' ''The operation was aborted'')
          \<lparr> ctx_url = ''http://a/'', ctx_method = ''GET'', ctx_attempt = 2 \<rparr>)),
       [Fetch ''http://a/'' opts, Wait 1000, Fetch ''http://a/'' opts])" for opts
  proof -
    have fails: "\<forall>k. 1 \<le> k \<and> k < (2::nat) \<longrightarrow>
        (\<exists>e. attempt_once (abort_while_reading_host 503) default_config ''http://a/'' opts k = Inl e
             \<and> \<not> isFatalError e)"
    proof (intro allI impI)
      fix k :: nat assume "1 \<le> k \<and> k < 2"
      then have "k = 1" by simp
      then show "\<exists>e. attempt_once (abort_while_reading_host 503) default_config ''http://a/'' opts k
          = Inl e \<and> \<not> isFatalError e"
        using a1 [of 503 "''http://a/''" opts] by (simp add: isFatalError_FetchError)
    qed
    have fatal: "isFatalError (plain_error ''AbortError'' ''The operation was aborted'')"
      by (simp add: isFatalError_def plain_error_def)
    from retry_loop_fatal_at [where N = 2, OF _ _ fails a2 fatal]
    show ?thesis by (simp add: R default_config_def)
  qed
  show ?thesis
    using fetchEnhanced_loop [OF u, of _ default_config]
    by (simp add: href l r enhanceError_def FetchError_def)
qed

lemma backoff_trace_3:
  "backoff_trace h opts d 3 = [Fetch h opts, Wait d, Fetch h opts, Wait (d * 2), Fetch h opts, Wait (d * 4)]"
  by (simp add: eval_nat_numeral)

section \<open>The claims\<close>

text \<open>
  C1. With \<^verbatim>\<open>retries = R\<close>, \<open>R\<close> a non-negative integer, and every attempt failing with
  an error that is not fatal (a thrown transport error, a rejected status or a failed
  decoding, whatever the \<^verbatim>\<open>catch\<close> clause receives), the call issues the request exactly
  \<open>R + 1\<close> times: its events are \<open>R\<close> requests each followed by a sleep, then one last
  request, and it then throws the error of attempt \<open>R + 1\<close>, marked with that attempt
  number. Attempts are numbered from 1.
\<close>

theorem fetchEnhanced_attempts_exhausted:
  assumes "0 \<le> cfg_retries cfg"
    and "host_URL host url = Inr u"
    and "\<forall>k. 1 \<le> k \<and> k \<le> nat (cfg_retries cfg) + 1 \<longrightarrow>
           (\<exists>e. attempt_once host cfg (final_href u cfg) (request_options_of host cfg) k = Inl e
                \<and> \<not> isFatalError e)"
  shows "fetch_count (snd (fetchEnhanced host url cfg)) = nat (cfg_retries cfg) + 1 \<and>
         snd (fetchEnhanced host url cfg) =
           backoff_trace (final_href u cfg) (request_options_of host cfg) (cfg_retryDelay cfg)
             (nat (cfg_retries cfg))
           @ [Fetch (final_href u cfg) (request_options_of host cfg)] \<and>
         (\<exists>e. attempt_once host cfg (final_href u cfg) (request_options_of host cfg)
                 (nat (cfg_retries cfg) + 1) = Inl e \<and>
               fst (fetchEnhanced host url cfg) =
                 Inl (Throw (e\<lparr> err_url := Some (final_href u cfg),
                                 err_method := Some (cfg_method cfg),
                                 err_attempt := Some (nat (cfg_retries cfg) + 1) \<rparr>)))"
proof -
  from retry_loop_exhausts [OF assms(1,3)] obtain e where
    e: "attempt_once host cfg (final_href u cfg) (request_options_of host cfg)
          (nat (cfg_retries cfg) + 1) = Inl e"
    and run: "retry_loop host cfg (final_href u cfg) (request_options_of host cfg) 0 None [] =
       (Inl (Throw (enhanceError e
          \<lparr> ctx_url = final_href u cfg, ctx_method = cfg_method cfg,
            ctx_attempt = nat (cfg_retries cfg) + 1 \<rparr>)),
        backoff_trace (final_href u cfg) (request_options_of host cfg) (cfg_retryDelay cfg)
          (nat (cfg_retries cfg))
        @ [Fetch (final_href u cfg) (request_options_of host cfg)])"
    by blast
  have "fetchEnhanced host url cfg =
       (Inl (Throw (enhanceError e
          \<lparr> ctx_url = final_href u cfg, ctx_method = cfg_method cfg,
            ctx_attempt = nat (cfg_retries cfg) + 1 \<rparr>)),
        backoff_trace (final_href u cfg) (request_options_of host cfg) (cfg_retryDelay cfg)
          (nat (cfg_retries cfg))
        @ [Fetch (final_href u cfg) (request_options_of host cfg)])"
    using fetchEnhanced_loop [OF assms(2)] run by simp
  with e show ?thesis
    by (simp add: fetch_count_snoc_Fetch fetch_count_backoff_trace enhanceError_def)
qed

theorem fetchEnhanced_attempts_exhausted_witness:
  "fetch_count (snd (fetchEnhanced always_failing_host ''http://a/''
       (default_config\<lparr> cfg_retries := 2 \<rparr>))) = 3 \<and>
   (\<exists>e. fst (fetchEnhanced always_failing_host ''http://a/''
              (default_config\<lparr> cfg_retries := 2 \<rparr>)) = Inl (Throw e) \<and>
        err_attempt e = Some 3)"
proof -
  let ?cfg = "default_config\<lparr> cfg_retries := 2 \<rparr>"
  have 1: "0 \<le> cfg_retries ?cfg" by simp
  have 2: "host_URL always_failing_host ''http://a/'' = Inr (plain_URL ''http://a/'')"
    by (simp add: always_failing_host_def stub_host_def)
  have 3: "\<forall>k. 1 \<le> k \<and> k \<le> nat (cfg_retries ?cfg) + 1 \<longrightarrow>
           (\<exists>e. attempt_once always_failing_host ?cfg (final_href (plain_URL ''http://a/'') ?cfg)
                   (request_options_of always_failing_host ?cfg) k = Inl e
                \<and> \<not> isFatalError e)"
    by (simp add: attempt_once_def always_failing_host_def stub_host_def isFatalError_def
        plain_error_def)
  from fetchEnhanced_attempts_exhausted [OF 1 2 3] show ?thesis by auto
qed

text \<open>
  C2. When the attempts 1 to \<open>N\<close> fail with errors that are not fatal and \<open>N\<close> is at most
  \<^verbatim>\<open>retries\<close>, the request of attempt \<open>N\<close> is followed by one sleep of
  \<open>retryDelay * 2 ^ (N - 1)\<close> milliseconds and then by the request of attempt \<open>N + 1\<close>:
  the events before the request of attempt \<open>N\<close> hold \<open>N - 1\<close> requests.
\<close>

theorem backoff_delay_before_next_attempt:
  assumes "host_URL host url = Inr u"
    and "1 \<le> N" and "int N \<le> cfg_retries cfg"
    and "\<forall>k. 1 \<le> k \<and> k \<le> N \<longrightarrow>
           (\<exists>e. attempt_once host cfg (final_href u cfg) (request_options_of host cfg) k = Inl e
                \<and> \<not> isFatalError e)"
  shows "\<exists>rest. snd (fetchEnhanced host url cfg) =
           backoff_trace (final_href u cfg) (request_options_of host cfg) (cfg_retryDelay cfg)
             (N - 1)
           @ [Fetch (final_href u cfg) (request_options_of host cfg),
              Wait (cfg_retryDelay cfg * 2 ^ (N - 1)),
              Fetch (final_href u cfg) (request_options_of host cfg)]
           @ rest \<and>
         fetch_count (backoff_trace (final_href u cfg) (request_options_of host cfg)
                        (cfg_retryDelay cfg) (N - 1)) = N - 1"
proof -
  let ?href = "final_href u cfg" and ?opts = "request_options_of host cfg"
  obtain n where N: "N = Suc n" using assms(2) by (cases N) auto
  from retry_loop_prefix [OF assms(4) assms(3)] obtain le where
    eq: "retry_loop host cfg ?href ?opts 0 None [] =
         retry_loop host cfg ?href ?opts N le (backoff_trace ?href ?opts (cfg_retryDelay cfg) N)"
    by blast
  from retry_loop_fetches_next [OF assms(3)] obtain rest where
    "snd (retry_loop host cfg ?href ?opts N le (backoff_trace ?href ?opts (cfg_retryDelay cfg) N))
     = backoff_trace ?href ?opts (cfg_retryDelay cfg) N @ Fetch ?href ?opts # rest"
    by blast
  with eq fetchEnhanced_loop [OF assms(1), of cfg]
  have "snd (fetchEnhanced host url cfg) =
        backoff_trace ?href ?opts (cfg_retryDelay cfg) N @ Fetch ?href ?opts # rest"
    by simp
  then show ?thesis
    by (simp add: N fetch_count_backoff_trace)
qed

theorem backoff_delay_before_next_attempt_witness:
  "\<exists>rest. snd (fetchEnhanced always_failing_host ''http://a/''
                 (default_config\<lparr> cfg_retries := 3, cfg_retryDelay := 250 \<rparr>)) =
     [Fetch ''http://a/'' (request_options_of always_failing_host
         (default_config\<lparr> cfg_retries := 3, cfg_retryDelay := 250 \<rparr>)),
      Wait 250,
      Fetch ''http://a/'' (request_options_of always_failing_host
         (default_config\<lparr> cfg_retries := 3, cfg_retryDelay := 250 \<rparr>)),
      Wait 500,
      Fetch ''http://a/'' (request_options_of always_failing_host
         (default_config\<lparr> cfg_retries := 3, cfg_retryDelay := 250 \<rparr>))] @ rest"
proof -
  let ?cfg = "default_config\<lparr> cfg_retries := 3, cfg_retryDelay := 250 \<rparr>"
  have 1: "host_URL always_failing_host ''http://a/'' = Inr (plain_URL ''http://a/'')"
    by (simp add: always_failing_host_def stub_host_def)
  have 2: "1 \<le> (2::nat)" by simp
  have 3: "int 2 \<le> cfg_retries ?cfg" by simp
  have 4: "\<forall>k. 1 \<le> k \<and> k \<le> 2 \<longrightarrow>
           (\<exists>e. attempt_once always_failing_host ?cfg (final_href (plain_URL ''http://a/'') ?cfg)
                   (request_options_of always_failing_host ?cfg) k = Inl e
                \<and> \<not> isFatalError e)"
    by (simp add: attempt_once_def always_failing_host_def stub_host_def isFatalError_def
        plain_error_def)
  have href: "final_href (plain_URL ''http://a/'') ?cfg = ''http://a/''"
    by (simp add: final_href_def append_query_def URL_toString_def plain_URL_def default_config_def)
  have bt: "backoff_trace h opts d (2 - 1) = [Fetch h opts, Wait d]" for h opts d
    by (simp add: numeral_2_eq_2)
  from backoff_delay_before_next_attempt [OF 1 2 3 4] show ?thesis
    unfolding href bt by (simp add: default_config_def)
qed

text \<open>
  C3. A response whose status fails the validator raises a \<^verbatim>\<open>FetchError\<close> of that status,
  and this error is fatal exactly when the status lies in \<open>[400, 500)\<close>. When the first
  response is rejected with such a status, the call issues one request and throws on
  attempt 1; with a retry budget of at least one, it stops after one request exactly when
  the status lies in \<open>[400, 500)\<close>. When every response is rejected with the same status
  outside \<open>[400, 500)\<close> (500, say), the call uses its whole budget: \<open>retries + 1\<close>
  requests, and the error thrown carries that status and the attempt number
  \<open>retries + 1\<close>.
\<close>

theorem status_rejection_fatal_iff:
  assumes "host_URL host url = Inr u"
    and "0 \<le> cfg_retries cfg"
    and "host_fetch host 1 (final_href u cfg) (request_options_of host cfg) = Inr r"
    and "\<not> cfg_validateStatus cfg (resp_status r)"
  shows "(isFatalError (FetchError m (resp_status r) d) \<longleftrightarrow>
            400 \<le> resp_status r \<and> resp_status r < 500) \<and>
         (400 \<le> resp_status r \<and> resp_status r < 500 \<longrightarrow>
            fetch_count (snd (fetchEnhanced host url cfg)) = 1 \<and>
            (\<exists>e. fst (fetchEnhanced host url cfg) = Inl (Throw e) \<and>
                 err_status e = Some (resp_status r) \<and> err_attempt e = Some 1)) \<and>
         (1 \<le> cfg_retries cfg \<longrightarrow>
            (fetch_count (snd (fetchEnhanced host url cfg)) = 1 \<longleftrightarrow>
               400 \<le> resp_status r \<and> resp_status r < 500)) \<and>
         (\<not> (400 \<le> resp_status r \<and> resp_status r < 500) \<and>
          (\<forall>k. 1 \<le> k \<and> k \<le> nat (cfg_retries cfg) + 1 \<longrightarrow>
             (\<exists>r'. host_fetch host k (final_href u cfg) (request_options_of host cfg) = Inr r'
                  \<and> resp_status r' = resp_status r)) \<longrightarrow>
            fetch_count (snd (fetchEnhanced host url cfg)) = nat (cfg_retries cfg) + 1 \<and>
            (\<exists>e. fst (fetchEnhanced host url cfg) = Inl (Throw e) \<and>
                 err_status e = Some (resp_status r) \<and>
                 err_attempt e = Some (nat (cfg_retries cfg) + 1)))"
proof -
  let ?href = "final_href u cfg" and ?opts = "request_options_of host cfg"
  let ?s = "resp_status r"
  let ?range = "400 \<le> ?s \<and> ?s < 500"
  note run = fetchEnhanced_loop [OF assms(1), of cfg]
  from attempt_once_rejected [OF assms(3,4)] obtain d1 where
    first: "attempt_once host cfg ?href ?opts 1 =
            Inl (FetchError (''Request failed with status '' @ int_to_string ?s) ?s d1)"
    by blast
  let ?e1 = "FetchError (''Request failed with status '' @ int_to_string ?s) ?s d1"
  have A: "isFatalError (FetchError m ?s d) \<longleftrightarrow> ?range"
    by (rule isFatalError_FetchError)
  have B: "fetch_count (snd (fetchEnhanced host url cfg)) = 1 \<and>
           (\<exists>e. fst (fetchEnhanced host url cfg) = Inl (Throw e) \<and>
                err_status e = Some ?s \<and> err_attempt e = Some 1)" if range: ?range
  proof -
    have fatal: "isFatalError ?e1" using range by (simp add: isFatalError_FetchError)
    have "retry_loop host cfg ?href ?opts 0 None [] =
          (Inl (Throw (enhanceError ?e1
             \<lparr> ctx_url = ?href, ctx_method = cfg_method cfg, ctx_attempt = 1 \<rparr>)),
           backoff_trace ?href ?opts (cfg_retryDelay cfg) (1 - 1) @ [Fetch ?href ?opts])"
      by (rule retry_loop_fatal_at) (use assms(2) first fatal in auto)
    with run show ?thesis
      by (simp add: fetch_count_def enhanceError_def FetchError_def)
  qed
  have C: "2 \<le> fetch_count (snd (fetchEnhanced host url cfg))"
    if nr: "\<not> ?range" and budget: "1 \<le> cfg_retries cfg"
  proof -
    have nf: "\<not> isFatalError ?e1" using nr by (simp add: isFatalError_FetchError)
    have "\<forall>k. 1 \<le> k \<and> k \<le> (1::nat) \<longrightarrow>
           (\<exists>e. attempt_once host cfg ?href ?opts k = Inl e \<and> \<not> isFatalError e)"
      using first nf by (auto simp: le_antisym)
    moreover have "int 1 \<le> cfg_retries cfg" using budget by simp
    ultimately obtain le where
      eq: "retry_loop host cfg ?href ?opts 0 None [] =
           retry_loop host cfg ?href ?opts 1 le
             (backoff_trace ?href ?opts (cfg_retryDelay cfg) 1)"
      using retry_loop_prefix [of 1 host cfg ?href ?opts] by blast
    from retry_loop_fetches_next [of 1 cfg host ?href ?opts le
        "backoff_trace ?href ?opts (cfg_retryDelay cfg) 1"] budget
    obtain rest where
      "snd (retry_loop host cfg ?href ?opts 1 le
              (backoff_trace ?href ?opts (cfg_retryDelay cfg) 1)) =
       backoff_trace ?href ?opts (cfg_retryDelay cfg) 1 @ Fetch ?href ?opts # rest"
      by auto
    with eq run show ?thesis by (simp add: fetch_count_def)
  qed
  have D: "fetch_count (snd (fetchEnhanced host url cfg)) = nat (cfg_retries cfg) + 1 \<and>
           (\<exists>e. fst (fetchEnhanced host url cfg) = Inl (Throw e) \<and>
                err_status e = Some ?s \<and> err_attempt e = Some (nat (cfg_retries cfg) + 1))"
    if nr: "\<not> ?range"
      and all: "\<forall>k. 1 \<le> k \<and> k \<le> nat (cfg_retries cfg) + 1 \<longrightarrow>
             (\<exists>r'. host_fetch host k ?href ?opts = Inr r' \<and> resp_status r' = ?s)"
  proof -
    have each: "\<exists>d'. attempt_once host cfg ?href ?opts k =
                  Inl (FetchError (''Request failed with status '' @ int_to_string ?s) ?s d')"
      if k: "1 \<le> k \<and> k \<le> nat (cfg_retries cfg) + 1" for k
    proof -
      from all k obtain r' where r': "host_fetch host k ?href ?opts = Inr r'"
        "resp_status r' = ?s" by blast
      with assms(4) have "\<not> cfg_validateStatus cfg (resp_status r')" by simp
      from attempt_once_rejected [OF r'(1) this] r'(2) show ?thesis by simp
    qed
    have fails: "\<forall>k. 1 \<le> k \<and> k \<le> nat (cfg_retries cfg) + 1 \<longrightarrow>
           (\<exists>e. attempt_once host cfg ?href ?opts k = Inl e \<and> \<not> isFatalError e)"
      using each nr by (metis isFatalError_FetchError)
    from retry_loop_exhausts [OF assms(2) fails] obtain e where
      e: "attempt_once host cfg ?href ?opts (nat (cfg_retries cfg) + 1) = Inl e"
      and loop: "retry_loop host cfg ?href ?opts 0 None [] =
        (Inl (Throw (enhanceError e
           \<lparr> ctx_url = ?href, ctx_method = cfg_method cfg,
             ctx_attempt = nat (cfg_retries cfg) + 1 \<rparr>)),
         backoff_trace ?href ?opts (cfg_retryDelay cfg) (nat (cfg_retries cfg))
         @ [Fetch ?href ?opts])"
      by blast
    from each [of "nat (cfg_retries cfg) + 1"] e
    have "err_status e = Some ?s" by (auto simp: err_status_FetchError)
    with loop run show ?thesis
      by (simp add: fetch_count_snoc_Fetch fetch_count_backoff_trace enhanceError_def)
  qed
  have E: "fetch_count (snd (fetchEnhanced host url cfg)) = 1 \<longleftrightarrow> ?range"
    if budget: "1 \<le> cfg_retries cfg"
    using B C [OF _ budget] by fastforce
  from A B D E show ?thesis by blast
qed

theorem status_rejection_fatal_iff_witness:
  "fetch_count (snd (fetchEnhanced (status_host 404) ''http://a/'' default_config)) = 1 \<and>
   (\<exists>e. fst (fetchEnhanced (status_host 404) ''http://a/'' default_config) = Inl (Throw e) \<and>
        err_status e = Some 404 \<and> err_attempt e = Some 1) \<and>
   fetch_count (snd (fetchEnhanced (status_host 500) ''http://a/'' default_config)) = 4 \<and>
   (\<exists>e. fst (fetchEnhanced (status_host 500) ''http://a/'' default_config) = Inl (Throw e) \<and>
        err_status e = Some 500 \<and> err_attempt e = Some 4)"
proof -
  have url: "host_URL (status_host s) ''http://a/'' = Inr (plain_URL ''http://a/'')" for s
    by (simp add: status_host_def stub_host_def)
  have R: "0 \<le> cfg_retries default_config" by (simp add: default_config_def)
  have first: "host_fetch (status_host s) k h opts = Inr (text_response s ''text/plain'' ''failure'')"
    for s k h opts
    by (simp add: status_host_def stub_host_def)
  have st: "resp_status (text_response s ct b) = s" for s ct b
    by (simp add: text_response_def)
  have rej: "\<not> cfg_validateStatus default_config (resp_status (text_response s ''text/plain'' ''failure''))"
    if "s = 404 \<or> s = 500" for s
    using that by (auto simp: default_config_def text_response_def)
  have n: "nat (cfg_retries default_config) + 1 = 4" by (simp add: default_config_def)
  from status_rejection_fatal_iff [OF url R first rej, of 404]
       status_rejection_fatal_iff [OF url R first rej, of 500]
  show ?thesis
    unfolding st n by (simp add: first st)
qed

text \<open>
  C4. The claim asks that every error thrown to the caller carry the final URL, the
  upper-cased method and the attempt number. On a lower-case POST without retries whose
  transport fails, \<^verbatim>\<open>fetch.js\<close> throws the error with the URL and the attempt number 1 but
  with the method as the caller wrote it, \<^verbatim>\<open>post\<close>; the documented variant throws it with
  \<^verbatim>\<open>POST\<close>.
\<close>

theorem surfaced_method_not_normalized:
  "fst (fetchEnhanced always_failing_host ''http://a/'' post_config) =
     Inl (Throw \<lparr> err_name = ''Error'', err_message = ''connection reset'',
                  err_is_TypeError = False, err_status = None, err_data = None,
                  err_url = Some ''http://a/'', err_method = Some ''post'',
                  err_attempt = Some 1 \<rparr>) \<and>
   toUpperCase (cfg_method post_config) = ''POST'' \<and>
   fst (fetchEnhanced_doc always_failing_host ''http://a/'' post_config) =
     Inl (Throw \<lparr> err_name = ''Error'', err_message = ''connection reset'',
                  err_is_TypeError = False, err_status = None, err_data = None,
                  err_url = Some ''http://a/'', err_method = Some ''POST'',
                  err_attempt = Some 1 \<rparr>)"
proof -
  have up: "toUpperCase ''post'' = ''POST''" by code_simp
  have href: "URL_toString (append_query (plain_URL ''http://a/'') (cfg_query post_config))
      = ''http://a/''"
    by (simp add: append_query_def URL_toString_def plain_URL_def post_config_def
        default_config_def)
  have a: "attempt_once always_failing_host post_config h opts k =
      Inl (plain_error ''Error'' ''connection reset'')" for h opts k
    by (simp add: attempt_once_def always_failing_host_def stub_host_def)
  have b: "attempt_once_doc always_failing_host post_config h opts k =
      Inl (plain_error ''Error'' ''connection reset'')" for h opts k
    by (simp add: attempt_once_doc_def always_failing_host_def stub_host_def)
  have R: "int 0 \<le> cfg_retries post_config" "int 0 = cfg_retries post_config"
    by (simp_all add: post_config_def)
  have u: "host_URL always_failing_host ''http://a/'' = Inr (plain_URL ''http://a/'')"
    by (simp add: always_failing_host_def stub_host_def)
  have m: "cfg_method post_config = ''post''"
    "opt_method (request_options_of_doc always_failing_host post_config) = ''POST''"
    by (simp_all add: post_config_def default_config_def request_options_of_doc_def
        base_options_def up Let_def)
  have l: "fst (fetchEnhanced always_failing_host ''http://a/'' post_config) =
     Inl (Throw (enhanceError (plain_error ''Error'' ''connection reset'')
        \<lparr> ctx_url = ''http://a/'', ctx_method = ''post'', ctx_attempt = 1 \<rparr>))"
    using retry_loop_stop [where a = 0 and tr = "[]" and le = None, OF R(1) a] R(2)
    by (simp add: fetchEnhanced_def u href m)
  have r: "fst (fetchEnhanced_doc always_failing_host ''http://a/'' post_config) =
     Inl (Throw (enhanceError (plain_error ''Error'' ''connection reset'')
        \<lparr> ctx_url = ''http://a/'', ctx_method = ''POST'', ctx_attempt = 1 \<rparr>))"
    using retry_loop_doc_stop [where a = 0 and tr = "[]" and le = None, OF R(1) b] R(2)
    by (simp add: fetchEnhanced_doc_def u href m)
  show ?thesis
    unfolding l r by (simp add: enhanceError_def plain_error_def post_config_def up)
qed

text \<open>
  C5. The claim asks that a cancellation, by the caller or by the timeout, end the call
  at once. Under the default configuration the request carries the signal of
  \<^verbatim>\<open>AbortSignal.timeout(8000)\<close>; when that signal fires on every attempt, the transport
  rejects with a \<^verbatim>\<open>TimeoutError\<close>, which \<^verbatim>\<open>isFatalError\<close> does not take for fatal: the call
  issues all four requests, sleeps 1000, 2000 and 4000 milliseconds between them, and
  throws the \<^verbatim>\<open>TimeoutError\<close> with the attempt number 4.
\<close>

theorem timeout_is_retried:
  "opt_signal (request_options_of timing_out_host default_config) = Some (AbortSignal_timeout 8000) \<and>
   snd (fetchEnhanced timing_out_host ''http://a/'' default_config) =
     [Fetch ''http://a/'' (request_options_of timing_out_host default_config), Wait 1000,
      Fetch ''http://a/'' (request_options_of timing_out_host default_config), Wait 2000,
      Fetch ''http://a/'' (request_options_of timing_out_host default_config), Wait 4000,
      Fetch ''http://a/'' (request_options_of timing_out_host default_config)] \<and>
   fetch_count (snd (fetchEnhanced timing_out_host ''http://a/'' default_config)) = 4 \<and>
   fst (fetchEnhanced timing_out_host ''http://a/'' default_config) =
     Inl (Throw \<lparr> err_name = ''TimeoutError'',
                  err_message = ''The operation was aborted due to timeout'',
                  err_is_TypeError = False, err_status = None, err_data = None,
                  err_url = Some ''http://a/'', err_method = Some ''GET'',
                  err_attempt = Some 4 \<rparr>)"
proof -
  let ?opts = "request_options_of timing_out_host default_config"
  have sig: "opt_signal ?opts = Some (AbortSignal_timeout 8000)"
    by (simp add: request_options_of_def base_options_def default_config_def Let_def)
  have u: "host_URL timing_out_host ''http://a/'' = Inr (plain_URL ''http://a/'')"
    by (simp add: timing_out_host_def)
  have href: "final_href (plain_URL ''http://a/'') default_config = ''http://a/''"
    by (simp add: final_href_def append_query_def URL_toString_def plain_URL_def
        default_config_def)
  have transport: "host_fetch timing_out_host k h opts =
      (case opt_signal opts of
         Some (AbortSignal_timeout ms) \<Rightarrow>
           Inl (plain_error ''TimeoutError'' ''The operation was aborted due to timeout'')
       | _ \<Rightarrow> Inr (text_response 200 ''text/plain'' ''ok''))" for k h opts
    by (simp add: timing_out_host_def)
  have a: "attempt_once timing_out_host default_config h ?opts k =
      Inl (plain_error ''TimeoutError'' ''The operation was aborted due to timeout'')" for h k
    using transport [of k h ?opts] sig by (simp add: attempt_once_def)
  have nf: "\<not> isFatalError (plain_error ''TimeoutError'' ''The operation was aborted due to timeout'')"
    by (simp add: isFatalError_def plain_error_def)
  have R: "0 \<le> cfg_retries default_config" "nat (cfg_retries default_config) = 3"
    "cfg_retryDelay default_config = 1000" "cfg_method default_config = ''GET''"
    by (simp_all add: default_config_def)
  have "\<forall>k. 1 \<le> k \<and> k \<le> nat (cfg_retries default_config) + 1 \<longrightarrow>
      (\<exists>e. attempt_once timing_out_host default_config ''http://a/'' ?opts k = Inl e \<and>
           \<not> isFatalError e)"
    using a nf by simp
  from retry_loop_exhausts [OF R(1) this]
  have run: "fetchEnhanced timing_out_host ''http://a/'' default_config =
      (Inl (Throw (enhanceError
          (plain_error ''TimeoutError'' ''The operation was aborted due to timeout'')
          \<lparr> ctx_url = ''http://a/'', ctx_method = ''GET'', ctx_attempt = 4 \<rparr>)),
       backoff_trace ''http://a/'' ?opts 1000 3 @ [Fetch ''http://a/'' ?opts])"
    using fetchEnhanced_loop [OF u, of default_config]
    by (simp add: a R href)
  show ?thesis
    unfolding run backoff_trace_3
    by (simp add: sig fetch_count_def enhanceError_def plain_error_def)
qed




text \<open>
  C7. With \<^verbatim>\<open>responseType\<close> \<^verbatim>\<open>'auto'\<close>, \<^verbatim>\<open>parseResponse\<close> chooses the decoder from the
  declared content type, the empty string when the response declares none, and the first
  match wins: a content type that contains \<^verbatim>\<open>json\<close> is decoded as JSON, else one that
  contains \<^verbatim>\<open>text\<close> as text, else one that contains \<^verbatim>\<open>octet-stream\<close> as a blob, and
  every other one as an array buffer. So \<^verbatim>\<open>application/json\<close> is decoded as JSON and
  \<^verbatim>\<open>text/plain\<close> as text. An explicit \<^verbatim>\<open>responseType\<close> \<^verbatim>\<open>'blob'\<close> is decoded as a blob.
\<close>

theorem parseResponse_auto_precedence:
  "parseResponse r ''auto'' =
     (let ct = (case resp_content_type r of None \<Rightarrow> '''' | Some c \<Rightarrow> c)
      in if (\<exists>p q. ct = p @ ''json'' @ q) then resp_json r
         else if (\<exists>p q. ct = p @ ''text'' @ q) then map_sum id JStr (resp_text r)
         else if (\<exists>p q. ct = p @ ''octet-stream'' @ q) then map_sum id JBlob (resp_blob r)
         else map_sum id JArrayBuffer (resp_arrayBuffer r)) \<and>
   parseResponse (r\<lparr> resp_content_type := Some ''application/json'' \<rparr>) ''auto'' = resp_json r \<and>
   parseResponse (r\<lparr> resp_content_type := Some ''text/plain'' \<rparr>) ''auto'' =
     map_sum id JStr (resp_text r) \<and>
   parseResponse r ''blob'' = map_sum id JBlob (resp_blob r)"
proof -
  have aj: "str_includes ''application/json'' ''json''" by simp
  have tp: "\<not> str_includes ''text/plain'' ''json''" "str_includes ''text/plain'' ''text''"
    by simp_all
  have general: "parseResponse r ''auto'' =
     (let ct = (case resp_content_type r of None \<Rightarrow> '''' | Some c \<Rightarrow> c)
      in if (\<exists>p q. ct = p @ ''json'' @ q) then resp_json r
         else if (\<exists>p q. ct = p @ ''text'' @ q) then map_sum id JStr (resp_text r)
         else if (\<exists>p q. ct = p @ ''octet-stream'' @ q) then map_sum id JBlob (resp_blob r)
         else map_sum id JArrayBuffer (resp_arrayBuffer r))"
    unfolding parseResponse_def Let_def str_includes_iff [symmetric]
    by (cases "resp_content_type r") simp_all
  have json: "parseResponse (r\<lparr> resp_content_type := Some ''application/json'' \<rparr>) ''auto'' =
      resp_json r"
    unfolding parseResponse_def Let_def using aj by simp
  have plain: "parseResponse (r\<lparr> resp_content_type := Some ''text/plain'' \<rparr>) ''auto'' =
      map_sum id JStr (resp_text r)"
    unfolding parseResponse_def Let_def using tp by simp
  have blob: "parseResponse r ''blob'' = map_sum id JBlob (resp_blob r)"
    unfolding parseResponse_def Let_def by simp
  from general json plain blob show ?thesis by blast
qed

theorem parseResponse_auto_precedence_witness:
  "parseResponse (text_response 200 ''application/json; charset=utf-8'' ''{}'') ''auto'' =
     Inl (plain_error ''SyntaxError'' ''Unexpected token'') \<and>
   parseResponse (text_response 200 ''text/html'' ''<p>'') ''auto'' = Inr (JStr ''<p>'') \<and>
   parseResponse (text_response 200 ''application/octet-stream'' ''ab'') ''auto'' =
     Inr (JBlob [97, 98]) \<and>
   parseResponse (text_response 200 ''image/png'' ''ab'') ''auto'' = Inr (JArrayBuffer [97, 98]) \<and>
   parseResponse (unreadable_response 200) ''auto'' =
     Inl (plain_error ''Error'' ''body stream is not readable'')"
proof -
  have 1: "\<exists>p q. ''application/json; charset=utf-8'' = p @ ''json'' @ q"
    unfolding str_includes_iff [symmetric] by simp
  have 2: "\<not> (\<exists>p q. ''text/html'' = p @ ''json'' @ q)" "\<exists>p q. ''text/html'' = p @ ''text'' @ q"
    unfolding str_includes_iff [symmetric] by simp_all
  have 3: "\<not> (\<exists>p q. ''application/octet-stream'' = p @ ''json'' @ q)"
    "\<not> (\<exists>p q. ''application/octet-stream'' = p @ ''text'' @ q)"
    "\<exists>p q. ''application/octet-stream'' = p @ ''octet-stream'' @ q"
    unfolding str_includes_iff [symmetric] by simp_all
  have 4: "\<not> (\<exists>p q. ''image/png'' = p @ ''json'' @ q)"
    "\<not> (\<exists>p q. ''image/png'' = p @ ''text'' @ q)"
    "\<not> (\<exists>p q. ''image/png'' = p @ ''octet-stream'' @ q)"
    unfolding str_includes_iff [symmetric] by simp_all
  have 5: "\<not> (\<exists>p q. '''' = p @ ''json'' @ q)"
    "\<not> (\<exists>p q. '''' = p @ ''text'' @ q)"
    "\<not> (\<exists>p q. '''' = p @ ''octet-stream'' @ q)"
    by simp_all
  have bytes: "map of_char ''ab'' = [97, 98 :: nat]" by simp
  from parseResponse_auto_precedence [of "text_response 200 ''application/json; charset=utf-8'' ''{}''"]
    parseResponse_auto_precedence [of "text_response 200 ''text/html'' ''<p>''"]
    parseResponse_auto_precedence [of "text_response 200 ''application/octet-stream'' ''ab''"]
    parseResponse_auto_precedence [of "text_response 200 ''image/png'' ''ab''"]
    parseResponse_auto_precedence [of "unreadable_response 200"]
  show ?thesis
    using 1 2 3 4 5
    by (simp add: text_response_def unreadable_response_def Let_def del: append_eq_append_conv
        append_eq_Cons_conv Cons_eq_append_conv)
qed

text \<open>
  C8. \<^verbatim>\<open>parseErrorResponse\<close> never throws, in \<^verbatim>\<open>fetch.js\<close> and in the documented
  variant: for every response it returns a payload. When the body decodes as JSON the
  payload is that value; when it does not but decodes as text, the payload is the text;
  when neither succeeds, the payload is \<^verbatim>\<open>null\<close> in \<^verbatim>\<open>fetch.js\<close> and a placeholder text
  naming the status in the documented variant.
\<close>

theorem parseErrorResponse_never_throws:
  "(\<exists>p. parseErrorResponse r = Inr p) \<and>
   (\<exists>p. parseErrorResponse_doc r = Inr p) \<and>
   (\<forall>v. resp_json r = Inr v \<longrightarrow>
        parseErrorResponse r = Inr v \<and> parseErrorResponse_doc r = Inr v) \<and>
   (\<forall>e t. resp_json r = Inl e \<and> resp_text r = Inr t \<longrightarrow>
        parseErrorResponse r = Inr (JStr t) \<and> parseErrorResponse_doc r = Inr (JStr t)) \<and>
   (\<forall>e e'. resp_json r = Inl e \<and> resp_text r = Inl e' \<longrightarrow>
        parseErrorResponse r = Inr JNull \<and>
        parseErrorResponse_doc r = Inr (JStr (parse_failure_text (resp_status r))))"
  by (cases "resp_json r"; cases "resp_text r")
     (simp_all add: parseErrorResponse_def parseErrorResponse_doc_def try_catch_def
        parse_failure_text_def)

theorem parseErrorResponse_never_throws_witness:
  "parseErrorResponse (unreadable_response 502) = Inr JNull \<and>
   parseErrorResponse_doc (unreadable_response 502) =
     Inr (JStr ''Failed to parse error response (status: 502)'') \<and>
   parseErrorResponse (text_response 502 ''text/html'' ''Bad Gateway'') = Inr (JStr ''Bad Gateway'') \<and>
   parseErrorResponse_doc (text_response 502 ''text/html'' ''Bad Gateway'') =
     Inr (JStr ''Bad Gateway'')"
proof -
  have s: "int_to_string 502 = ''502''" by code_simp
  from parseErrorResponse_never_throws [of "unreadable_response 502"]
    parseErrorResponse_never_throws [of "text_response 502 ''text/html'' ''Bad Gateway''"]
  show ?thesis
    by (simp add: unreadable_response_def text_response_def parse_failure_text_def s)
qed

text \<open>
  C9. With \<^verbatim>\<open>retries\<close> not negative, the call issues a first request, and it and every
  later request go to the final URL; an error thrown carries that URL. The final URL is
  the base of the parsed URL, then, when the query contributes entries, \<open>?\<close> and the
  serialization of the search parameters (those of the given URL, then the contributed
  ones), then the fragment. The contributed entries are the entries of the query whose
  value is not \<^verbatim>\<open>undefined\<close>, in order, with the value converted to a string. The
  serialization percent-encodes names and values so that no encoded name or value holds
  \<open>&\<close>, \<open>=\<close>, \<open>?\<close> or \<open>#\<close>, and parsing the serialized query gives back exactly the
  search parameters.
\<close>

theorem query_entries_encoded:
  assumes "host_URL host url = Inr u" and "0 \<le> cfg_retries cfg"
  shows "(\<exists>rest. snd (fetchEnhanced host url cfg) =
            Fetch (final_href u cfg) (request_options_of host cfg) # rest) \<and>
         (\<forall>href options. Fetch href options \<in> set (snd (fetchEnhanced host url cfg)) \<longrightarrow>
            href = final_href u cfg) \<and>
         (\<forall>t. fst (fetchEnhanced host url cfg) = Inl t \<longrightarrow>
            (\<exists>e. t = Throw e \<and> err_url e = Some (final_href u cfg))) \<and>
         final_href u cfg =
           url_base u
           @ (if kept_entries (cfg_query cfg) = []
              then (case url_query u of None \<Rightarrow> [] | Some q \<Rightarrow> CHR ''?'' # q)
              else CHR ''?'' # urlencoded_serialize (url_params u @ kept_entries (cfg_query cfg)))
           @ (case url_hash u of None \<Rightarrow> [] | Some h \<Rightarrow> CHR ''#'' # h) \<and>
         urlencoded_parse (urlencoded_serialize (url_params u @ kept_entries (cfg_query cfg))) =
           url_params u @ kept_entries (cfg_query cfg) \<and>
         (\<forall>s. CHR ''&'' \<notin> set (urlencode s) \<and> CHR ''='' \<notin> set (urlencode s) \<and>
              CHR ''?'' \<notin> set (urlencode s) \<and> CHR ''#'' \<notin> set (urlencode s))"
proof -
  have first: "\<exists>rest. snd (fetchEnhanced host url cfg) =
            Fetch (final_href u cfg) (request_options_of host cfg) # rest"
    using retry_loop_fetches_next [of 0 cfg host "final_href u cfg" "request_options_of host cfg"
        None "[]"] assms(2) fetchEnhanced_loop [OF assms(1), of cfg]
    by simp
  have sent: "\<forall>href options. Fetch href options \<in> set (snd (fetchEnhanced host url cfg)) \<longrightarrow>
            href = final_href u cfg"
    using fetchEnhanced_events [of _ host url cfg] assms(1) by auto
  have thrown: "\<forall>t. fst (fetchEnhanced host url cfg) = Inl t \<longrightarrow>
            (\<exists>e. t = Throw e \<and> err_url e = Some (final_href u cfg))"
    using fetchEnhanced_thrown_fields [OF assms] by blast
  have href: "final_href u cfg =
           url_base u
           @ (if kept_entries (cfg_query cfg) = []
              then (case url_query u of None \<Rightarrow> [] | Some q \<Rightarrow> CHR ''?'' # q)
              else CHR ''?'' # urlencoded_serialize (url_params u @ kept_entries (cfg_query cfg)))
           @ (case url_hash u of None \<Rightarrow> [] | Some h \<Rightarrow> CHR ''#'' # h)"
    using append_query_fields [of u "cfg_query cfg"]
    by (simp add: final_href_def URL_toString_def)
  from first sent thrown href urlencoded_parse_serialize urlencode_no_separator
  show ?thesis by blast
qed

theorem query_entries_encoded_witness:
  "(\<exists>rest. snd (fetchEnhanced always_failing_host ''http://a/'' query_config) =
      Fetch ''http://a/?a+b=x%26y%3Dz&n=null&k=-15''
        (request_options_of always_failing_host query_config) # rest) \<and>
   (\<exists>e. fst (fetchEnhanced always_failing_host ''http://a/'' query_config) = Inl (Throw e) \<and>
        err_url e = Some ''http://a/?a+b=x%26y%3Dz&n=null&k=-15'') \<and>
   urlencoded_parse ''a+b=x%26y%3Dz&n=null&k=-15'' =
     [(''a b'', ''x&y=z''), (''n'', ''null''), (''k'', ''-15'')]"
proof -
  have url: "host_URL always_failing_host ''http://a/'' = Inr (plain_URL ''http://a/'')"
    by (simp add: always_failing_host_def stub_host_def)
  have R: "0 \<le> cfg_retries query_config"
    by (simp add: query_config_def default_config_def)
  have kept: "kept_entries (cfg_query query_config) =
      [(''a b'', ''x&y=z''), (''n'', ''null''), (''k'', ''-15'')]"
    by code_simp
  have ser: "urlencoded_serialize [(''a b'', ''x&y=z''), (''n'', ''null''), (''k'', ''-15'')] =
      ''a+b=x%26y%3Dz&n=null&k=-15''"
    by code_simp
  have href: "final_href (plain_URL ''http://a/'') query_config =
      ''http://a/?a+b=x%26y%3Dz&n=null&k=-15''"
    using query_entries_encoded [OF url R] by (simp add: kept ser plain_URL_def)
  have fails: "\<forall>k. 1 \<le> k \<and> k \<le> nat (cfg_retries query_config) + 1 \<longrightarrow>
      (\<exists>e. attempt_once always_failing_host query_config
             (final_href (plain_URL ''http://a/'') query_config)
             (request_options_of always_failing_host query_config) k = Inl e \<and>
           \<not> isFatalError e)"
    by (simp add: attempt_once_def always_failing_host_def stub_host_def isFatalError_def
        plain_error_def)
  from retry_loop_exhausts [OF R fails] fetchEnhanced_loop [OF url, of query_config]
  obtain t where thrown: "fst (fetchEnhanced always_failing_host ''http://a/'' query_config) = Inl t"
    by auto
  note all = query_entries_encoded [OF url R]
  have first: "\<exists>rest. snd (fetchEnhanced always_failing_host ''http://a/'' query_config) =
      Fetch ''http://a/?a+b=x%26y%3Dz&n=null&k=-15''
        (request_options_of always_failing_host query_config) # rest"
    using all [THEN conjunct1] unfolding href .
  have "\<exists>e. t = Throw e \<and> err_url e = Some (final_href (plain_URL ''http://a/'') query_config)"
    using all [THEN conjunct2, THEN conjunct2, THEN conjunct1] thrown by blast
  then have err: "\<exists>e. fst (fetchEnhanced always_failing_host ''http://a/'' query_config) =
      Inl (Throw e) \<and> err_url e = Some ''http://a/?a+b=x%26y%3Dz&n=null&k=-15''"
    unfolding href using thrown by blast
  have parse: "urlencoded_parse ''a+b=x%26y%3Dz&n=null&k=-15'' =
      [(''a b'', ''x&y=z''), (''n'', ''null''), (''k'', ''-15'')]"
    using all [THEN conjunct2, THEN conjunct2, THEN conjunct2, THEN conjunct2, THEN conjunct1]
    by (simp only: kept ser plain_URL_def js_URL.simps append_Nil)
  from first err parse show ?thesis by (intro conjI)
qed

text \<open>
  C10, as amended. For every host, URL and configuration the two variants issue the same
  requests and sleep the same delays, and they end alike: with the same value, or both
  throwing \<^verbatim>\<open>null\<close>, or throwing errors of the same name, message, class, status, URL and
  attempt number whose payloads are equal, or else \<^verbatim>\<open>null\<close> in \<^verbatim>\<open>fetch.js\<close> and the
  placeholder text of the documented variant (when neither decoding of the rejected
  response succeeded). The field \<^verbatim>\<open>method\<close> of the error is not compared.
\<close>

theorem variants_agree_up_to_method_and_fallback:
  "outcomes_agree (fst (fetchEnhanced host url cfg)) (fst (fetchEnhanced_doc host url cfg)) \<and>
   snd (fetchEnhanced host url cfg) = snd (fetchEnhanced_doc host url cfg)"
proof (cases "host_URL host url")
  case (Inl e)
  then show ?thesis
    by (simp add: fetchEnhanced_def fetchEnhanced_doc_def errors_agree_refl)
next
  case (Inr u)
  have "last_errors_agree None None" by simp
  from retry_loop_doc_agree [OF this] Inr show ?thesis
    by (simp add: fetchEnhanced_def fetchEnhanced_doc_def request_options_of_doc_eq)
qed

theorem variants_agree_up_to_method_and_fallback_witness:
  "outcomes_agree
     (fst (fetchEnhanced (unreadable_host 500) ''http://a/'' no_retry_config))
     (fst (fetchEnhanced_doc (unreadable_host 500) ''http://a/'' no_retry_config)) \<and>
   snd (fetchEnhanced (unreadable_host 500) ''http://a/'' no_retry_config) =
   snd (fetchEnhanced_doc (unreadable_host 500) ''http://a/'' no_retry_config)"
  using variants_agree_up_to_method_and_fallback
    [of "unreadable_host 500" "''http://a/''" no_retry_config]
  by simp

text \<open>
  The input that refutes C10 as stated: a response of status 500 whose body neither
  decoding can read, under the default configuration without retries. The error of
  \<^verbatim>\<open>fetch.js\<close> carries the payload \<^verbatim>\<open>null\<close>, the error of the documented variant the
  placeholder text.
\<close>

theorem variants_differ_counterexample:
  "fst (fetchEnhanced (unreadable_host 500) ''http://a/'' no_retry_config) =
     Inl (Throw \<lparr> err_name = ''FetchError'', err_message = ''Request failed with status 500'',
                  err_is_TypeError = False, err_status = Some 500, err_data = Some JNull,
                  err_url = Some ''http://a/'', err_method = Some ''GET'',
                  err_attempt = Some 1 \<rparr>) \<and>
   fst (fetchEnhanced_doc (unreadable_host 500) ''http://a/'' no_retry_config) =
     Inl (Throw \<lparr> err_name = ''FetchError'', err_message = ''Request failed with status 500'',
                  err_is_TypeError = False, err_status = Some 500,
                  err_data = Some (JStr ''Failed to parse error response (status: 500)''),
                  err_url = Some ''http://a/'', err_method = Some ''GET'',
                  err_attempt = Some 1 \<rparr>) \<and>
   fst (fetchEnhanced (unreadable_host 500) ''http://a/'' no_retry_config) \<noteq>
   fst (fetchEnhanced_doc (unreadable_host 500) ''http://a/'' no_retry_config)"
proof -
  have s: "int_to_string 500 = ''500''" by code_simp
  have up: "toUpperCase ''GET'' = ''GET''" by code_simp
  have href: "URL_toString (append_query (plain_URL ''http://a/'') (cfg_query no_retry_config))
      = ''http://a/''"
    by (simp add: append_query_def URL_toString_def plain_URL_def no_retry_config_def
        default_config_def)
  have a: "attempt_once (unreadable_host 500) no_retry_config h opts k =
      Inl (FetchError ''Request failed with status 500'' 500 JNull)" for h opts k
    by (simp add: attempt_once_def unreadable_host_def stub_host_def unreadable_response_def
        no_retry_config_def default_config_def parseErrorResponse_def try_catch_def s)
  have b: "attempt_once_doc (unreadable_host 500) no_retry_config h opts k =
      Inl (FetchError ''Request failed with status 500'' 500
             (JStr ''Failed to parse error response (status: 500)''))" for h opts k
    by (simp add: attempt_once_doc_def unreadable_host_def stub_host_def unreadable_response_def
        no_retry_config_def default_config_def parseErrorResponse_doc_def try_catch_def s)
  have R: "int 0 \<le> cfg_retries no_retry_config" "int 0 = cfg_retries no_retry_config"
    by (simp_all add: no_retry_config_def)
  have u: "host_URL (unreadable_host 500) ''http://a/'' = Inr (plain_URL ''http://a/'')"
    by (simp add: unreadable_host_def stub_host_def)
  have m: "cfg_method no_retry_config = ''GET''"
    "opt_method (request_options_of_doc (unreadable_host 500) no_retry_config) = ''GET''"
    by (simp_all add: no_retry_config_def default_config_def request_options_of_doc_def
        base_options_def up Let_def)
  have l: "fst (fetchEnhanced (unreadable_host 500) ''http://a/'' no_retry_config) =
     Inl (Throw (enhanceError (FetchError ''Request failed with status 500'' 500 JNull)
        \<lparr> ctx_url = ''http://a/'', ctx_method = ''GET'', ctx_attempt = 1 \<rparr>))"
    using retry_loop_stop [where a = 0 and tr = "[]" and le = None, OF R(1) a] R(2)
    by (simp add: fetchEnhanced_def u href m)
  have r: "fst (fetchEnhanced_doc (unreadable_host 500) ''http://a/'' no_retry_config) =
     Inl (Throw (enhanceError (FetchError ''Request failed with status 500'' 500
             (JStr ''Failed to parse error response (status: 500)''))
        \<lparr> ctx_url = ''http://a/'', ctx_method = ''GET'', ctx_attempt = 1 \<rparr>))"
    using retry_loop_doc_stop [where a = 0 and tr = "[]" and le = None, OF R(1) b] R(2)
    by (simp add: fetchEnhanced_doc_def u href m)
  show ?thesis
    unfolding l r by (simp add: enhanceError_def FetchError_def)
qed

end
